theory Spec2Isabelle
  imports Main "HOL-Library.Multiset" "HOL-Library.AList"
begin

section \<open>The migration generator of the Lucid adapter (src/adapter.ts)\<close>

text \<open>
  A shallow embedding of the schema generation helpers and of
  \<^verbatim>\<open>generateLucidMigration\<close>. A JavaScript string is modelled as a \<^typ>\<open>string\<close>, a
  character of the model being a UTF-16 code unit below 256 (Basic Latin and Latin-1
  Supplement): the embedding covers the strings of such code units, which include the
  schema keys, the table names and the emitted code. The one character of the source
  beyond that range, the dash of the rollback comment, is written as the three bytes of
  its UTF-8 encoding.
\<close>

subsection \<open>Text helpers\<close>

abbreviation sq :: string where
  "sq \<equiv> [CHR 0x27]"

abbreviation nl :: string where
  "nl \<equiv> [CHR 0x0A]"

text \<open>\<^verbatim>\<open>Array.prototype.join\<close>.\<close>

fun join :: "string \<Rightarrow> string list \<Rightarrow> string" where
  "join sep [] = []"
| "join sep [x] = x"
| "join sep (x # y # ys) = x @ sep @ join sep (y # ys)"

text \<open>
  A JavaScript \<^verbatim>\<open>Set\<close> keeps its elements in insertion order and ignores an element
  that is already there; it is modelled as the list of its elements in that order.
\<close>

definition set_add :: "'a \<Rightarrow> 'a list \<Rightarrow> 'a list" where
  "set_add x s = (if x \<in> set s then s else s @ [x])"

definition new_Set :: "'a list \<Rightarrow> 'a list" where
  "new_Set xs = foldl (\<lambda>s x. set_add x s) [] xs"

subsection \<open>Data model\<close>

text \<open>
  The \<^verbatim>\<open>references\<close> entry of a field, a field (\<^verbatim>\<open>DBFieldAttribute\<close>) and a table
  of the schema (\<^verbatim>\<open>BetterAuthDBSchema\<close>). Optional members that the code compares
  with \<^verbatim>\<open>??\<close> or \<^verbatim>\<open>!== false\<close> are options; members it only tests for truthiness are
  booleans. An object is the list of its entries in the order of \<^verbatim>\<open>Object.entries\<close>,
  with distinct keys. The \<^verbatim>\<open>order\<close> of a table is an integer, and \<^verbatim>\<open>onDelete\<close> is one of
  the five actions of its type or a string that \<^verbatim>\<open>ON_DELETE_MAP\<close> does not have.
\<close>

record reference =
  model :: string
  field :: string
  onDelete :: "string option"

record DBFieldAttribute =
  ftype :: string
  required :: "bool option"
  unique :: bool
  sortable :: bool
  bigint :: bool
  index :: bool
  fieldName :: "string option"
  references :: "reference option"

record DBTable =
  modelName :: string
  order :: "int option"
  disableMigrations :: bool
  tfields :: "(string \<times> DBFieldAttribute) list"

type_synonym BetterAuthDBSchema = "(string \<times> DBTable) list"

text \<open>
  The database handle, as far as the generator reads it: the rows of
  \<^verbatim>\<open>information_schema.tables\<close> (base tables of the public schema) and of
  \<^verbatim>\<open>information_schema.columns\<close> (public schema), or the failure of the query.
\<close>

datatype error = CatalogUnavailable

record Database =
  information_schema_tables :: "error + string list"
  information_schema_columns :: "error + (string \<times> string) list"

record artifact =
  code :: string
  path :: string
  overwrite :: bool

subsection \<open>Column names\<close>

definition upper_letters :: string where
  "upper_letters = ''ABCDEFGHIJKLMNOPQRSTUVWXYZ''"

definition lower_letters :: string where
  "lower_letters = ''abcdefghijklmnopqrstuvwxyz''"

text \<open>
  The capital letters of the Latin-1 Supplement (U+00C0 to U+00DE without the
  multiplication sign U+00D7) and their small letters, 32 code units higher.
\<close>

definition latin1_capitals :: string where
  "latin1_capitals =
     [CHR 0xC0, CHR 0xC1, CHR 0xC2, CHR 0xC3, CHR 0xC4, CHR 0xC5, CHR 0xC6, CHR 0xC7,
      CHR 0xC8, CHR 0xC9, CHR 0xCA, CHR 0xCB, CHR 0xCC, CHR 0xCD, CHR 0xCE, CHR 0xCF,
      CHR 0xD0, CHR 0xD1, CHR 0xD2, CHR 0xD3, CHR 0xD4, CHR 0xD5, CHR 0xD6,
      CHR 0xD8, CHR 0xD9, CHR 0xDA, CHR 0xDB, CHR 0xDC, CHR 0xDD, CHR 0xDE]"

definition latin1_smalls :: string where
  "latin1_smalls =
     [CHR 0xE0, CHR 0xE1, CHR 0xE2, CHR 0xE3, CHR 0xE4, CHR 0xE5, CHR 0xE6, CHR 0xE7,
      CHR 0xE8, CHR 0xE9, CHR 0xEA, CHR 0xEB, CHR 0xEC, CHR 0xED, CHR 0xEE, CHR 0xEF,
      CHR 0xF0, CHR 0xF1, CHR 0xF2, CHR 0xF3, CHR 0xF4, CHR 0xF5, CHR 0xF6,
      CHR 0xF8, CHR 0xF9, CHR 0xFA, CHR 0xFB, CHR 0xFC, CHR 0xFD, CHR 0xFE]"

text \<open>The character class \<^verbatim>\<open>[A-Z]\<close>.\<close>

definition is_upper :: "char \<Rightarrow> bool" where
  "is_upper c = (c \<in> set upper_letters)"

text \<open>
  \<^verbatim>\<open>String.prototype.toLowerCase\<close> on one code unit below 256: the letters A to Z and
  the capitals of the Latin-1 Supplement have a lowercase mapping, no other code unit of
  that range has one, and no rule that looks at the context applies in that range.
\<close>

definition to_lower :: "char \<Rightarrow> char" where
  "to_lower c =
     (case map_of (zip (upper_letters @ latin1_capitals) (lower_letters @ latin1_smalls)) c of
        Some l \<Rightarrow> l
      | None \<Rightarrow> c)"

text \<open>\<^verbatim>\<open>str.replace(/([A-Z])/g, '_$1')\<close>: every match is replaced by an underscore and itself.\<close>

fun replace_upper :: "string \<Rightarrow> string" where
  "replace_upper [] = []"
| "replace_upper (c # cs) = (if is_upper c then CHR ''_'' # c # replace_upper cs else c # replace_upper cs)"

definition toLowerCase :: "string \<Rightarrow> string" where
  "toLowerCase s = map to_lower s"

definition camelToSnake :: "string \<Rightarrow> string" where
  "camelToSnake str = toLowerCase (replace_upper str)"

definition getColumnName :: "string \<Rightarrow> DBFieldAttribute \<Rightarrow> string" where
  "getColumnName schemaKey fld =
     (case fieldName fld of Some n \<Rightarrow> n | None \<Rightarrow> camelToSnake schemaKey)"

subsection \<open>Column chains and table blocks\<close>

definition getKnexType :: "DBFieldAttribute \<Rightarrow> string" where
  "getKnexType fld =
     (if ftype fld = ''string'' then (if sortable fld then ''string'' else ''text'')
      else if ftype fld = ''number'' then (if bigint fld then ''bigInteger'' else ''integer'')
      else if ftype fld = ''boolean'' then ''boolean''
      else if ftype fld = ''date'' then ''timestamp''
      else if ftype fld = ''json'' then ''jsonb''
      else ''text'')"

definition ON_DELETE_MAP :: "(string \<times> string) list" where
  "ON_DELETE_MAP =
     [(''cascade'', ''CASCADE''),
      (''set null'', ''SET NULL''),
      (''restrict'', ''RESTRICT''),
      (''no action'', ''NO ACTION''),
      (''set default'', ''SET DEFAULT'')]"

text \<open>
  \<^verbatim>\<open>ON_DELETE_MAP\<close> is an object literal, so a property that it does not have itself is
  looked up in \<^verbatim>\<open>Object.prototype\<close>. The methods found there are native functions and
  \<^verbatim>\<open>__proto__\<close> is the prototype object; none is \<^verbatim>\<open>undefined\<close>, and the template string
  turns them into the text below (a native function as V8 prints it).
\<close>

definition Object_prototype_methods :: "string list" where
  "Object_prototype_methods =
     [''__defineGetter__'', ''__defineSetter__'', ''hasOwnProperty'', ''__lookupGetter__'',
      ''__lookupSetter__'', ''isPrototypeOf'', ''propertyIsEnumerable'', ''toString'',
      ''valueOf'', ''toLocaleString'']"

definition inherited_property_text :: "string \<Rightarrow> string option" where
  "inherited_property_text k =
     (if k = ''__proto__'' then Some ''[object Object]''
      else if k = ''constructor'' then Some ''function Object() { [native code] }''
      else if k \<in> set Object_prototype_methods
      then Some (''function '' @ k @ ''() { [native code] }'')
      else None)"

text \<open>\<^verbatim>\<open>ON_DELETE_MAP[refs.onDelete ?? 'cascade'] ?? 'CASCADE'\<close>, as the template prints it.\<close>

definition onDelete_action :: "reference \<Rightarrow> string" where
  "onDelete_action refs =
     (let key = (case onDelete refs of Some a \<Rightarrow> a | None \<Rightarrow> ''cascade'')
      in case map_of ON_DELETE_MAP key of
           Some a \<Rightarrow> a
         | None \<Rightarrow> (case inherited_property_text key of
                      Some a \<Rightarrow> a
                    | None \<Rightarrow> ''CASCADE''))"

text \<open>
  The references clause that \<^verbatim>\<open>buildColumnChain\<close> appends for a foreign key. An
  inherited property of the schema object has no \<^verbatim>\<open>modelName\<close>, so
  \<^verbatim>\<open>allTables[refs.model]?.modelName ?? refs.model\<close> is the raw key for it as for a key
  that is absent.
\<close>

definition references_clause :: "reference \<Rightarrow> BetterAuthDBSchema \<Rightarrow> string" where
  "references_clause refs allTables =
     (let refModelName = (case map_of allTables (model refs) of
                            Some t \<Rightarrow> modelName t
                          | None \<Rightarrow> model refs);
          onDel = onDelete_action refs
      in ''.references('' @ sq @ field refs @ sq @ '').inTable('' @ sq @ refModelName @ sq
           @ '').onDelete('' @ sq @ onDel @ sq @ '')'')"

definition buildColumnChain :: "string \<Rightarrow> DBFieldAttribute \<Rightarrow> BetterAuthDBSchema \<Rightarrow> string" where
  "buildColumnChain schemaKey fld allTables =
     (let colName = getColumnName schemaKey fld;
          knexType = getKnexType fld;
          typeArg = (if knexType = ''timestamp'' then sq @ colName @ sq @ '', { useTz: true }''
                     else sq @ colName @ sq);
          chain0 = knexType @ ''('' @ typeArg @ '')'';
          chain1 = (if schemaKey = ''id'' then chain0 @ ''.primary()'' else chain0);
          chain2 = (if required fld \<noteq> Some False then chain1 @ ''.notNullable()''
                    else chain1 @ ''.nullable()'');
          chain3 = (if unique fld then chain2 @ ''.unique()'' else chain2)
      in case references fld of
           Some refs \<Rightarrow> chain3 @ references_clause refs allTables
         | None \<Rightarrow> (if index fld then chain3 @ ''.index()'' else chain3))"

definition generateCreateTableBlock ::
  "string \<Rightarrow> (string \<times> DBFieldAttribute) list \<Rightarrow> BetterAuthDBSchema \<Rightarrow> string \<Rightarrow> string" where
  "generateCreateTableBlock mName flds allTables indent =
     (let lines =
            (case map_of flds ''id'' of
               Some f \<Rightarrow> [indent @ ''  table.'' @ buildColumnChain ''id'' f allTables]
             | None \<Rightarrow> [])
            @ map (\<lambda>(key, f). indent @ ''  table.'' @ buildColumnChain key f allTables)
                (filter (\<lambda>(key, f). key \<noteq> ''id'') flds)
      in indent @ ''this.schema.createTable('' @ sq @ mName @ sq @ '', (table) => {'' @ nl
           @ join nl lines @ nl @ indent @ ''})'')"

subsection \<open>Catalog queries\<close>

definition queryExistingTables :: "Database \<Rightarrow> error + string list" where
  "queryExistingTables db =
     (case information_schema_tables db of
        Inl e \<Rightarrow> Inl e
      | Inr rows \<Rightarrow> Inr (new_Set rows))"

text \<open>
  The \<^verbatim>\<open>Map\<close> from table name to the \<^verbatim>\<open>Set\<close> of its column names, as the list
  of its entries in insertion order: \<^verbatim>\<open>get\<close> is \<^const>\<open>map_of\<close> and \<^verbatim>\<open>set\<close> is
  \<^const>\<open>AList.update\<close>.
\<close>

definition add_column_row ::
  "(string \<times> string list) list \<Rightarrow> string \<times> string \<Rightarrow> (string \<times> string list) list" where
  "add_column_row result row =
     (let r = (if map_of result (fst row) = None then AList.update (fst row) [] result
               else result)
      in AList.update (fst row) (set_add (snd row) (the (map_of r (fst row)))) r)"

definition queryExistingColumns ::
  "Database \<Rightarrow> string list \<Rightarrow> error + (string \<times> string list) list" where
  "queryExistingColumns db tableNames =
     (if tableNames = [] then Inr []
      else case information_schema_columns db of
             Inl e \<Rightarrow> Inl e
           | Inr rows \<Rightarrow>
               Inr (foldl add_column_row []
                      (filter (\<lambda>row. fst row \<in> set tableNames) rows)))"

subsection \<open>The migration document\<close>

definition wrapInBaseSchema :: "string \<Rightarrow> string \<Rightarrow> string" where
  "wrapInBaseSchema upBody downBody =
     join nl
       [''import { BaseSchema } from '' @ sq @ ''@adonisjs/lucid/schema'' @ sq,
        '''',
        ''export default class extends BaseSchema {'',
        ''  async up() {'',
        upBody,
        ''  }'',
        '''',
        ''  async down() {'',
        downBody,
        ''  }'',
        ''}'',
        '''']"

definition no_changes_code :: string where
  "no_changes_code =
     ''// better-auth schema is already in sync with your database. No changes needed.'' @ nl"

definition no_rollback_comment :: string where
  "no_rollback_comment =
     ''    // No automatic rollback for incremental changes '' @ [CHR 0xE2, CHR 0x80, CHR 0x94]
       @ '' run manually if needed.''"

subsection \<open>The pattern that recovers a column name from a generated line\<close>

text \<open>The character class \<^verbatim>\<open>\w\<close>.\<close>

definition word_char :: "char \<Rightarrow> bool" where
  "word_char c = (c \<in> set (upper_letters @ lower_letters @ ''0123456789_''))"

definition strip_prefix :: "string \<Rightarrow> string \<Rightarrow> string option" where
  "strip_prefix p s = (if take (length p) s = p then Some (drop (length p) s) else None)"

text \<open>
  A match of \<^verbatim>\<open>/table\.\w+\('([^']+)'/\<close> that starts at the head of the string, giving
  group 1. No character of \<^verbatim>\<open>\w\<close> is an opening parenthesis and the group excludes the
  quote that must follow it, so both greedy repetitions can only match a maximal run.
\<close>

definition match_here :: "string \<Rightarrow> string option" where
  "match_here s =
     (case strip_prefix ''table.'' s of
        None \<Rightarrow> None
      | Some r1 \<Rightarrow>
          if takeWhile word_char r1 = [] then None
          else (case strip_prefix (''('' @ sq) (dropWhile word_char r1) of
                  None \<Rightarrow> None
                | Some r2 \<Rightarrow>
                    let g = takeWhile (\<lambda>c. c \<noteq> CHR 0x27) r2;
                        r3 = dropWhile (\<lambda>c. c \<noteq> CHR 0x27) r2
                    in if g = [] \<or> r3 = [] then None else Some g))"

text \<open>\<^verbatim>\<open>line.match(...)\<close>: the leftmost match, \<^verbatim>\<open>None\<close> for \<^verbatim>\<open>null\<close>.\<close>

fun line_match :: "string \<Rightarrow> string option" where
  "line_match [] = match_here []"
| "line_match (c # cs) =
     (case match_here (c # cs) of Some g \<Rightarrow> Some g | None \<Rightarrow> line_match cs)"

subsection \<open>The generator\<close>

record gen_state =
  upStatements :: "string list"
  downStatements :: "string list"
  warnings :: "string list"

definition dropTableLine :: "string \<Rightarrow> string" where
  "dropTableLine mName = ''    this.schema.dropTableIfExists('' @ sq @ mName @ sq @ '')''"

definition alterTableStatement :: "string \<Rightarrow> string list \<Rightarrow> string" where
  "alterTableStatement mName lines =
     ''    this.schema.table('' @ sq @ mName @ sq @ '', (table) => {'' @ nl
       @ join nl lines @ nl @ ''    })''"

text \<open>\<^verbatim>\<open>existingColumns.get(modelName) ?? new Set()\<close>.\<close>

definition currentCols_of :: "(string \<times> string list) list \<Rightarrow> string \<Rightarrow> string list" where
  "currentCols_of existingColumns mName =
     (case map_of existingColumns mName of Some s \<Rightarrow> s | None \<Rightarrow> [])"

text \<open>The fields for which the inner loop pushes a line: not \<^verbatim>\<open>id\<close>, column not in the catalog.\<close>

definition missing_fields ::
  "(string \<times> DBFieldAttribute) list \<Rightarrow> string list \<Rightarrow> (string \<times> DBFieldAttribute) list" where
  "missing_fields flds currentCols =
     filter (\<lambda>(schemaKey, f). schemaKey \<noteq> ''id'' \<and> getColumnName schemaKey f \<notin> set currentCols)
       flds"

definition addColLines_of ::
  "(string \<times> DBFieldAttribute) list \<Rightarrow> string list \<Rightarrow> BetterAuthDBSchema \<Rightarrow> string list" where
  "addColLines_of flds currentCols tables =
     map (\<lambda>(schemaKey, f). ''      table.'' @ buildColumnChain schemaKey f tables)
       (missing_fields flds currentCols)"

definition dropColumnLine :: "string \<Rightarrow> string" where
  "dropColumnLine c = ''      table.dropColumn('' @ sq @ c @ sq @ '')''"

definition dropLines_of :: "string list \<Rightarrow> string list" where
  "dropLines_of addColLines =
     List.map_filter (\<lambda>line. map_option dropColumnLine (line_match line)) addColLines"

definition column_warning :: "string \<Rightarrow> string \<Rightarrow> string list" where
  "column_warning mName existingCol =
     [''    // WARNING: '' @ sq @ mName @ ''.'' @ existingCol @ sq
        @ '' is no longer in your better-auth config.'',
      ''    // Remove it manually if desired:'',
      ''    // this.schema.table('' @ sq @ mName @ sq @ '', (table) => { table.dropColumn(''
        @ sq @ existingCol @ sq @ '') })'']"

definition table_warning :: "string \<Rightarrow> string list" where
  "table_warning existingTable =
     [''    // WARNING: Table '' @ sq @ existingTable @ sq
        @ '' exists in DB but is no longer in your config.'',
      ''    // Drop it manually if desired:'',
      ''    // this.schema.dropTableIfExists('' @ sq @ existingTable @ sq @ '')'']"

definition stale_columns :: "(string \<times> DBFieldAttribute) list \<Rightarrow> string list \<Rightarrow> string list" where
  "stale_columns flds currentCols =
     filter (\<lambda>existingCol. existingCol \<noteq> ''id''
                \<and> \<not> list_ex (\<lambda>(k, f). getColumnName k f = existingCol) flds)
       currentCols"

text \<open>One iteration of the loop over the active tables.\<close>

definition process_table ::
  "string list \<Rightarrow> (string \<times> string list) list \<Rightarrow> BetterAuthDBSchema \<Rightarrow> gen_state \<Rightarrow> DBTable
     \<Rightarrow> gen_state" where
  "process_table existingTables existingColumns tables st t =
     (if modelName t \<notin> set existingTables then
        st\<lparr>upStatements := upStatements st
               @ [generateCreateTableBlock (modelName t) (tfields t) tables ''    ''],
           downStatements := dropTableLine (modelName t) # downStatements st\<rparr>
      else
        let currentCols = currentCols_of existingColumns (modelName t);
            addColLines = addColLines_of (tfields t) currentCols tables;
            st1 = (if addColLines \<noteq> [] then
                     let st' = st\<lparr>upStatements := upStatements st
                                      @ [alterTableStatement (modelName t) addColLines]\<rparr>;
                         dropLines = dropLines_of addColLines
                     in if dropLines \<noteq> [] then
                          st'\<lparr>downStatements := downStatements st'
                                 @ [alterTableStatement (modelName t) dropLines]\<rparr>
                        else st'
                   else st)
        in st1\<lparr>warnings := warnings st1
                  @ concat (map (column_warning (modelName t))
                              (stale_columns (tfields t) currentCols))\<rparr>)"

text \<open>The loop over the active tables, from the three empty arrays.\<close>

definition incremental_state ::
  "string list \<Rightarrow> (string \<times> string list) list \<Rightarrow> BetterAuthDBSchema \<Rightarrow> DBTable list \<Rightarrow> gen_state" where
  "incremental_state existingTables existingColumns tables activeTables =
     foldl (process_table existingTables existingColumns tables)
       \<lparr>upStatements = [], downStatements = [], warnings = []\<rparr> activeTables"

text \<open>The loop over the catalog tables that warns about removed tables.\<close>

definition removed_table_warnings :: "string list \<Rightarrow> string list \<Rightarrow> DBTable list \<Rightarrow> string list" where
  "removed_table_warnings existingTables desiredTableNames activeTables =
     concat (map table_warning
       (filter (\<lambda>existingTable. existingTable \<notin> set desiredTableNames
                   \<and> list_ex (\<lambda>t. modelName t = existingTable) activeTables)
          existingTables))"

definition table_order :: "DBTable \<Rightarrow> int" where
  "table_order t = (case order t of Some n \<Rightarrow> n | None \<Rightarrow> 999)"

text \<open>
  \<^verbatim>\<open>Object.values(tables).filter(...).sort(...)\<close>; the sort of an array is stable, as is
  \<^const>\<open>sort_key\<close>.
\<close>

definition activeTables_of :: "BetterAuthDBSchema \<Rightarrow> DBTable list" where
  "activeTables_of tables =
     sort_key table_order (filter (\<lambda>t. \<not> disableMigrations t) (map snd tables))"

text \<open>
  \<^verbatim>\<open>generateLucidMigration(db, tables, file)\<close>. The clock that \<^verbatim>\<open>generateTimestamp\<close>
  reads is the argument \<open>timestamp\<close>. A failed catalog query rejects the promise.
\<close>

definition generateLucidMigration ::
  "Database \<Rightarrow> BetterAuthDBSchema \<Rightarrow> string option \<Rightarrow> string \<Rightarrow> error + artifact" where
  "generateLucidMigration db tables file timestamp =
     (let activeTables = activeTables_of tables;
          outputPath = (case file of
                          Some f \<Rightarrow> f
                        | None \<Rightarrow> ''database/migrations/'' @ timestamp @ ''_better_auth_schema.ts'')
      in case queryExistingTables db of
           Inl e \<Rightarrow> Inl e
         | Inr existingTables \<Rightarrow>
             if ''user'' \<notin> set existingTables then
               let upBlocks = map (\<lambda>t. generateCreateTableBlock (modelName t) (tfields t) tables ''    '')
                                activeTables;
                   downLines = map (\<lambda>t. dropTableLine (modelName t)) (rev activeTables)
               in Inr \<lparr>code = wrapInBaseSchema (join (nl @ nl) upBlocks) (join nl downLines),
                       path = outputPath, overwrite = False\<rparr>
             else
               let desiredTableNames = new_Set (map modelName activeTables)
               in (case queryExistingColumns db desiredTableNames of
                    Inl e \<Rightarrow> Inl e
                  | Inr existingColumns \<Rightarrow>
                      let st = incremental_state existingTables existingColumns tables
                                 activeTables;
                          warns = warnings st
                                    @ removed_table_warnings existingTables desiredTableNames
                                        activeTables
                      in if upStatements st = [] \<and> warns = [] then
                           Inr \<lparr>code = no_changes_code, path = outputPath, overwrite = False\<rparr>
                         else
                           let upBody = join (nl @ nl)
                                          (upStatements st
                                             @ (if warns \<noteq> [] then '''' # warns else []));
                               downBody = (if downStatements st \<noteq> []
                                           then join (nl @ nl) (downStatements st)
                                           else no_rollback_comment)
                           in Inr \<lparr>code = wrapInBaseSchema upBody downBody,
                                   path = outputPath, overwrite = False\<rparr>))"

section \<open>Definitions used to state the properties\<close>



text \<open>
  A name that can stand between single quotes in the generated code and be read back
  from it: not empty, and free of single quotes.
\<close>

definition plain_name :: "string \<Rightarrow> bool" where
  "plain_name c = (c \<noteq> [] \<and> CHR 0x27 \<notin> set c)"

text \<open>An active table that is in the catalog and lacks a declared column there.\<close>

definition altered_table :: "string list \<Rightarrow> (string \<times> string list) list \<Rightarrow> DBTable \<Rightarrow> bool" where
  "altered_table existingTables existingColumns t =
     (modelName t \<in> set existingTables
      \<and> missing_fields (tfields t) (currentCols_of existingColumns (modelName t)) \<noteq> [])"

text \<open>What one iteration of the loop adds to each of the three arrays.\<close>

definition table_up ::
  "string list \<Rightarrow> (string \<times> string list) list \<Rightarrow> BetterAuthDBSchema \<Rightarrow> DBTable \<Rightarrow> string list" where
  "table_up existingTables existingColumns tables t =
     (if modelName t \<notin> set existingTables
      then [generateCreateTableBlock (modelName t) (tfields t) tables ''    '']
      else if altered_table existingTables existingColumns t
      then [alterTableStatement (modelName t)
              (addColLines_of (tfields t) (currentCols_of existingColumns (modelName t)) tables)]
      else [])"

definition table_down ::
  "string list \<Rightarrow> (string \<times> string list) list \<Rightarrow> BetterAuthDBSchema \<Rightarrow> DBTable \<Rightarrow> string list" where
  "table_down existingTables existingColumns tables t =
     (if altered_table existingTables existingColumns t
         \<and> dropLines_of (addColLines_of (tfields t)
               (currentCols_of existingColumns (modelName t)) tables) \<noteq> []
      then [alterTableStatement (modelName t)
              (dropLines_of (addColLines_of (tfields t)
                 (currentCols_of existingColumns (modelName t)) tables))]
      else [])"

definition table_warnings ::
  "string list \<Rightarrow> (string \<times> string list) list \<Rightarrow> DBTable \<Rightarrow> string list" where
  "table_warnings existingTables existingColumns t =
     (if modelName t \<in> set existingTables
      then concat (map (column_warning (modelName t))
             (stale_columns (tfields t) (currentCols_of existingColumns (modelName t))))
      else [])"

subsection \<open>Example inputs\<close>

definition ex_field :: DBFieldAttribute where
  "ex_field = \<lparr>ftype = ''string'', required = None, unique = False, sortable = False,
     bigint = False, index = False, fieldName = None, references = None\<rparr>"

definition ex_disabled :: DBTable where
  "ex_disabled = \<lparr>modelName = ''skip_me'', order = Some 10, disableMigrations = True,
     tfields = [(''id'', ex_field)]\<rparr>"

definition fresh_db :: Database where
  "fresh_db = \<lparr>information_schema_tables = Inr [], information_schema_columns = Inr []\<rparr>"

definition ex_users :: DBTable where
  "ex_users = \<lparr>modelName = ''users'', order = None, disableMigrations = False,
     tfields = [(''id'', ex_field)]\<rparr>"

definition ex_user :: DBTable where
  "ex_user = \<lparr>modelName = ''user'', order = Some 1, disableMigrations = False,
     tfields = [(''id'', ex_field), (''name'', ex_field)]\<rparr>"

definition ex_session :: DBTable where
  "ex_session = \<lparr>modelName = ''session'', order = Some 2, disableMigrations = False,
     tfields = [(''id'', ex_field), (''token'', ex_field)]\<rparr>"

definition ex_schema :: BetterAuthDBSchema where
  "ex_schema = [(''session'', ex_session), (''user'', ex_user)]"


definition removed_db :: Database where
  "removed_db = \<lparr>information_schema_tables = Inr [''user'', ''twoFactor''],
     information_schema_columns =
       Inr [(''user'', ''id''), (''user'', ''name''), (''twoFactor'', ''id'')]\<rparr>"

definition ids_db :: Database where
  "ids_db = \<lparr>information_schema_tables = Inr [''user'', ''session''],
     information_schema_columns = Inr [(''user'', ''id''), (''session'', ''id'')]\<rparr>"



definition quote_db :: Database where
  "quote_db = \<lparr>information_schema_tables = Inr [''user''],
     information_schema_columns = Inr [(''user'', ''id''), (''user'', ''x'')]\<rparr>"

definition quote_user :: DBTable where
  "quote_user = \<lparr>modelName = ''user'', order = Some 1, disableMigrations = False,
     tfields = [(''id'', ex_field), (''x'y'', ex_field)]\<rparr>"

definition quote_schema :: BetterAuthDBSchema where
  "quote_schema = [(''user'', quote_user)]"



text \<open>\<^verbatim>\<open>String.prototype.includes\<close>, as the tests use it on the generated code.\<close>

fun includes_text :: "string \<Rightarrow> string \<Rightarrow> bool" where
  "includes_text [] p = (p = [])"
| "includes_text (c # cs) p = (take (length p) (c # cs) = p \<or> includes_text cs p)"

definition fk_session :: DBTable where
  "fk_session = \<lparr>modelName = ''session'', order = Some 2, disableMigrations = False,
     tfields = [(''id'', ex_field),
                (''ownerId'', ex_field\<lparr>references :=
                    Some \<lparr>model = ''skipMe'', field = ''id'', onDelete = None\<rparr>\<rparr>)]\<rparr>"

definition fk_schema :: BetterAuthDBSchema where
  "fk_schema = [(''skipMe'', ex_disabled), (''session'', fk_session)]"

definition owner_field :: DBFieldAttribute where
  "owner_field = ex_field\<lparr>references :=
     Some \<lparr>model = ''user'', field = ''id'', onDelete = Some ''cascade''\<rparr>\<rparr>"

definition owner_session :: DBTable where
  "owner_session = \<lparr>modelName = ''session'', order = Some 2, disableMigrations = False,
     tfields = [(''id'', ex_field), (''ownerId'', owner_field)]\<rparr>"

definition owner_schema :: BetterAuthDBSchema where
  "owner_schema = [(''user'', ex_user), (''session'', owner_session)]"

section \<open>Auxiliary facts\<close>

subsection \<open>Sets, joins and the document wrapper\<close>

lemma set_new_Set_aux: "set (foldl (\<lambda>s x. set_add x s) acc xs) = set acc \<union> set xs"
  by (induction xs arbitrary: acc) (auto simp: set_add_def)

lemma set_new_Set: "set (new_Set xs) = set xs"
  by (simp add: new_Set_def set_new_Set_aux)

lemma wrap_not_no_changes: "wrapInBaseSchema u d \<noteq> no_changes_code"
  by (simp add: wrapInBaseSchema_def no_changes_code_def)

lemma concat_map_if_single:
  "(\<And>x. x \<in> set xs \<Longrightarrow> g x = (if P x then [h x] else [])) \<Longrightarrow>
     concat (map g xs) = map h (filter P xs)"
  by (induction xs) auto

subsection \<open>Column names and column chains\<close>





lemma chain_ignores_index_with_reference:
  "references fld = Some refs \<Longrightarrow>
     buildColumnChain k (fld\<lparr>index := b\<rparr>) allTables = buildColumnChain k fld allTables"
  by (simp add: buildColumnChain_def getColumnName_def getKnexType_def Let_def)

lemma knexType_word: "getKnexType f \<noteq> [] \<and> (\<forall>c\<in>set (getKnexType f). word_char c)"
  by (simp add: getKnexType_def word_char_def upper_letters_def lower_letters_def)

lemma paren_not_word: "\<not> word_char (CHR ''('')"
  by (simp add: word_char_def upper_letters_def lower_letters_def)

lemma chain_shape:
  "\<exists>rest. buildColumnChain k f tables
     = getKnexType f @ ''('' @ sq @ getColumnName k f @ sq @ rest"
  by (simp add: buildColumnChain_def Let_def split: option.splits)

subsection \<open>Reading a column name back from a generated line\<close>

lemma takeWhile_to_quote: "q \<notin> set col \<Longrightarrow> takeWhile (\<lambda>c. c \<noteq> q) (col @ q # rest) = col"
  by (induction col) auto

lemma dropWhile_to_quote: "q \<notin> set col \<Longrightarrow> dropWhile (\<lambda>c. c \<noteq> q) (col @ q # rest) = q # rest"
  by (induction col) auto

lemma match_here_chain:
  assumes "plain_name col" "kt \<noteq> []" "\<forall>c\<in>set kt. word_char c"
  shows "match_here (''table.'' @ kt @ ''('' @ sq @ col @ sq @ rest) = Some col"
proof -
  have 1: "takeWhile word_char (kt @ ''('' @ sq @ col @ sq @ rest) = kt"
    using assms(3) by (simp add: takeWhile_append2 paren_not_word)
  have 2: "dropWhile word_char (kt @ ''('' @ sq @ col @ sq @ rest) = ''('' @ sq @ col @ sq @ rest"
    using assms(3) by (simp add: dropWhile_append2 paren_not_word)
  have 3: "takeWhile (\<lambda>c. c \<noteq> CHR 0x27) (col @ sq @ rest) = col"
    using assms(1) by (simp add: plain_name_def takeWhile_to_quote dropWhile_to_quote)
  have 4: "dropWhile (\<lambda>c. c \<noteq> CHR 0x27) (col @ sq @ rest) = sq @ rest"
    using assms(1) by (simp add: plain_name_def takeWhile_to_quote dropWhile_to_quote)
  have 5: "strip_prefix ''table.'' (''table.'' @ kt @ ''('' @ sq @ col @ sq @ rest)
             = Some (kt @ ''('' @ sq @ col @ sq @ rest)"
    by (simp add: strip_prefix_def)
  have 6: "strip_prefix (''('' @ sq) (''('' @ sq @ col @ sq @ rest) = Some (col @ sq @ rest)"
    by (simp add: strip_prefix_def)
  show ?thesis
    unfolding match_here_def 5 option.case 1 2 6 Let_def 3 4
    using assms(1,2) by (simp add: plain_name_def)
qed

lemma match_here_space: "match_here (CHR '' '' # s) = None"
  by (simp add: match_here_def strip_prefix_def)

lemma line_match_addColLine:
  assumes "plain_name (getColumnName k f)"
  shows "line_match (''      table.'' @ buildColumnChain k f tables) = Some (getColumnName k f)"
proof -
  obtain rest where r: "buildColumnChain k f tables
     = getKnexType f @ ''('' @ sq @ getColumnName k f @ sq @ rest"
    using chain_shape by blast
  have "line_match (''      '' @ (''table.'' @ getKnexType f @ ''('' @ sq @ getColumnName k f @ sq @ rest))
          = line_match (''table.'' @ getKnexType f @ ''('' @ sq @ getColumnName k f @ sq @ rest)"
    by (simp add: match_here_space)
  also have "\<dots> = Some (getColumnName k f)"
    using match_here_chain [OF assms, of "getKnexType f" rest] knexType_word [of f]
    by (cases "''table.'' @ getKnexType f @ ''('' @ sq @ getColumnName k f @ sq @ rest") simp_all
  finally show ?thesis by (simp add: r)
qed

lemma map_filter_line_match:
  "(\<And>k f. (k, f) \<in> set xs \<Longrightarrow> line_match (g (k, f)) = Some (getColumnName k f)) \<Longrightarrow>
     List.map_filter (\<lambda>line. map_option dropColumnLine (line_match line)) (map g xs)
       = map (\<lambda>(k, f). dropColumnLine (getColumnName k f)) xs"
proof (induction xs)
  case Nil
  then show ?case by (simp add: List.map_filter_simps)
next
  case (Cons x xs)
  obtain k f where x: "x = (k, f)" by (cases x)
  have "line_match (g (k, f)) = Some (getColumnName k f)"
    using Cons.prems [of k f] x by simp
  moreover have "List.map_filter (\<lambda>line. map_option dropColumnLine (line_match line)) (map g xs)
       = map (\<lambda>(k, f). dropColumnLine (getColumnName k f)) xs"
    using Cons.IH Cons.prems by simp
  ultimately show ?case
    by (simp add: List.map_filter_simps x)
qed

lemma dropLines_of_plain:
  assumes "\<forall>(k, f)\<in>set (missing_fields flds cc). plain_name (getColumnName k f)"
  shows "dropLines_of (addColLines_of flds cc tables)
           = map (\<lambda>(k, f). dropColumnLine (getColumnName k f)) (missing_fields flds cc)"
  unfolding dropLines_of_def addColLines_of_def
proof (rule map_filter_line_match)
  fix k f
  assume "(k, f) \<in> set (missing_fields flds cc)"
  with assms have "plain_name (getColumnName k f)" by auto
  then show "line_match (case (k, f) of (schemaKey, f) \<Rightarrow> ''      table.'' @ buildColumnChain schemaKey f tables)
               = Some (getColumnName k f)"
    unfolding prod.case by (rule line_match_addColLine)
qed

subsection \<open>The loop over the active tables\<close>

lemma process_table_up:
  "upStatements (process_table et ec tables st t) = upStatements st @ table_up et ec tables t"
  by (simp add: process_table_def table_up_def altered_table_def addColLines_of_def Let_def)

lemma process_table_down:
  "downStatements (process_table et ec tables st t) =
     (if modelName t \<notin> set et then [dropTableLine (modelName t)] else [])
       @ downStatements st @ table_down et ec tables t"
  by (simp add: process_table_def table_down_def altered_table_def addColLines_of_def Let_def)

lemma process_table_warnings:
  "warnings (process_table et ec tables st t) = warnings st @ table_warnings et ec t"
  by (simp add: process_table_def table_warnings_def Let_def)

lemma loop_up:
  "upStatements (foldl (process_table et ec tables) st ts)
     = upStatements st @ concat (map (table_up et ec tables) ts)"
  by (induction ts arbitrary: st) (simp_all add: process_table_up)

lemma loop_warnings:
  "warnings (foldl (process_table et ec tables) st ts)
     = warnings st @ concat (map (table_warnings et ec) ts)"
  by (induction ts arbitrary: st) (simp_all add: process_table_warnings)

lemma loop_down:
  "downStatements (foldl (process_table et ec tables) st ts)
     = map (\<lambda>t. dropTableLine (modelName t)) (rev (filter (\<lambda>t. modelName t \<notin> set et) ts))
         @ downStatements st @ concat (map (table_down et ec tables) ts)"
  by (induction ts arbitrary: st) (simp_all add: process_table_down)

lemma incremental_up:
  "upStatements (incremental_state et ec tables ts) = concat (map (table_up et ec tables) ts)"
  by (simp add: incremental_state_def loop_up)

lemma incremental_warnings:
  "warnings (incremental_state et ec tables ts) = concat (map (table_warnings et ec) ts)"
  by (simp add: incremental_state_def loop_warnings)

lemma incremental_down:
  "downStatements (incremental_state et ec tables ts)
     = map (\<lambda>t. dropTableLine (modelName t)) (rev (filter (\<lambda>t. modelName t \<notin> set et) ts))
         @ concat (map (table_down et ec tables) ts)"
  by (simp add: incremental_state_def loop_down)

lemma table_down_plain:
  assumes "\<forall>(k, f)\<in>set (missing_fields (tfields t) (currentCols_of ec (modelName t))).
             plain_name (getColumnName k f)"
  shows "table_down et ec tables t =
           (if altered_table et ec t
            then [alterTableStatement (modelName t)
                    (map (\<lambda>(k, f). dropColumnLine (getColumnName k f))
                       (missing_fields (tfields t) (currentCols_of ec (modelName t))))]
            else [])"
  using dropLines_of_plain [OF assms, of tables]
  by (simp add: table_down_def altered_table_def)

lemma removed_table_warnings_Nil:
  "removed_table_warnings et (new_Set (map modelName ts)) ts = []"
proof -
  have "filter (\<lambda>existingTable. existingTable \<notin> set (new_Set (map modelName ts))
                   \<and> list_ex (\<lambda>t. modelName t = existingTable) ts) et = []"
    by (auto simp: filter_empty_conv set_new_Set list_ex_iff)
  then show ?thesis by (simp add: removed_table_warnings_def)
qed

subsection \<open>The two modes of the generator\<close>

lemma generate_fresh:
  assumes "queryExistingTables db = Inr et" "''user'' \<notin> set et"
  shows "generateLucidMigration db tables file ts =
     Inr \<lparr>code = wrapInBaseSchema
               (join (nl @ nl)
                  (map (\<lambda>t. generateCreateTableBlock (modelName t) (tfields t) tables ''    '')
                     (activeTables_of tables)))
               (join nl (map (\<lambda>t. dropTableLine (modelName t)) (rev (activeTables_of tables)))),
          path = (case file of Some f \<Rightarrow> f
                  | None \<Rightarrow> ''database/migrations/'' @ ts @ ''_better_auth_schema.ts''),
          overwrite = False\<rparr>"
  using assms by (simp add: generateLucidMigration_def Let_def)

lemma generate_provisioned:
  assumes "queryExistingTables db = Inr et" "''user'' \<in> set et"
    and "queryExistingColumns db (new_Set (map modelName (activeTables_of tables))) = Inr ec"
  shows "generateLucidMigration db tables file ts =
     Inr \<lparr>code =
           (if upStatements (incremental_state et ec tables (activeTables_of tables)) = []
               \<and> warnings (incremental_state et ec tables (activeTables_of tables)) = []
            then no_changes_code
            else wrapInBaseSchema
                   (join (nl @ nl)
                      (upStatements (incremental_state et ec tables (activeTables_of tables))
                         @ (if warnings (incremental_state et ec tables (activeTables_of tables)) \<noteq> []
                            then '''' # warnings (incremental_state et ec tables (activeTables_of tables))
                            else [])))
                   (if downStatements (incremental_state et ec tables (activeTables_of tables)) \<noteq> []
                    then join (nl @ nl)
                           (downStatements (incremental_state et ec tables (activeTables_of tables)))
                    else no_rollback_comment)),
          path = (case file of Some f \<Rightarrow> f
                  | None \<Rightarrow> ''database/migrations/'' @ ts @ ''_better_auth_schema.ts''),
          overwrite = False\<rparr>"
  using assms by (simp add: generateLucidMigration_def Let_def removed_table_warnings_Nil)

section \<open>Properties\<close>

text \<open>
  C7. For a field with a \<^verbatim>\<open>references\<close> entry, \<^verbatim>\<open>buildColumnChain\<close> yields the chain
  of the same field without the entry and without the index flag, followed by a
  references clause. The clause names the referenced field, the \<^verbatim>\<open>modelName\<close> of the
  referenced table when its key is in the schema and the raw key otherwise, and an
  on-delete action that is \<^verbatim>\<open>CASCADE\<close> when none is given and the entry of
  \<^verbatim>\<open>ON_DELETE_MAP\<close> for an action that the map has. The index flag changes nothing for
  such a field, while a field without a foreign key and with the flag set gets
  \<^verbatim>\<open>.index()\<close> appended.
\<close>

theorem C7_references_clause_appended:
  "(references fld = Some refs \<longrightarrow>
      (\<exists>action.
         buildColumnChain k fld allTables =
           buildColumnChain k (fld\<lparr>references := None, index := False\<rparr>) allTables
             @ ''.references('' @ sq @ field refs @ sq @ '').inTable('' @ sq
             @ (case map_of allTables (model refs) of Some t \<Rightarrow> modelName t | None \<Rightarrow> model refs)
             @ sq @ '').onDelete('' @ sq @ action @ sq @ '')''
         \<and> (onDelete refs = None \<longrightarrow> action = ''CASCADE'')
         \<and> (\<forall>a b. onDelete refs = Some a \<and> (a, b) \<in> set ON_DELETE_MAP \<longrightarrow> action = b))
      \<and> buildColumnChain k (fld\<lparr>index := True\<rparr>) allTables = buildColumnChain k fld allTables)
   \<and> (references fld = None \<and> index fld \<longrightarrow>
        buildColumnChain k fld allTables =
          buildColumnChain k (fld\<lparr>index := False\<rparr>) allTables @ ''.index()'')"
proof (intro conjI impI)
  assume r: "references fld = Some refs"
  have 1: "buildColumnChain k fld allTables =
           buildColumnChain k (fld\<lparr>references := None, index := False\<rparr>) allTables
             @ ''.references('' @ sq @ field refs @ sq @ '').inTable('' @ sq
             @ (case map_of allTables (model refs) of Some t \<Rightarrow> modelName t | None \<Rightarrow> model refs)
             @ sq @ '').onDelete('' @ sq @ onDelete_action refs @ sq @ '')''"
    using r by (simp add: buildColumnChain_def references_clause_def getColumnName_def
        getKnexType_def Let_def)
  have 2: "onDelete refs = None \<longrightarrow> onDelete_action refs = ''CASCADE''"
    by (simp add: onDelete_action_def ON_DELETE_MAP_def)
  have d: "distinct (map fst ON_DELETE_MAP)"
    by (simp add: ON_DELETE_MAP_def)
  have 3: "\<forall>a b. onDelete refs = Some a \<and> (a, b) \<in> set ON_DELETE_MAP \<longrightarrow> onDelete_action refs = b"
    using map_of_is_SomeI [OF d] by (auto simp: onDelete_action_def)
  show "\<exists>action.
         buildColumnChain k fld allTables =
           buildColumnChain k (fld\<lparr>references := None, index := False\<rparr>) allTables
             @ ''.references('' @ sq @ field refs @ sq @ '').inTable('' @ sq
             @ (case map_of allTables (model refs) of Some t \<Rightarrow> modelName t | None \<Rightarrow> model refs)
             @ sq @ '').onDelete('' @ sq @ action @ sq @ '')''
         \<and> (onDelete refs = None \<longrightarrow> action = ''CASCADE'')
         \<and> (\<forall>a b. onDelete refs = Some a \<and> (a, b) \<in> set ON_DELETE_MAP \<longrightarrow> action = b)"
  proof (intro exI conjI)
    show "buildColumnChain k fld allTables =
           buildColumnChain k (fld\<lparr>references := None, index := False\<rparr>) allTables
             @ ''.references('' @ sq @ field refs @ sq @ '').inTable('' @ sq
             @ (case map_of allTables (model refs) of Some t \<Rightarrow> modelName t | None \<Rightarrow> model refs)
             @ sq @ '').onDelete('' @ sq @ onDelete_action refs @ sq @ '')''"
      by (rule 1)
    show "onDelete refs = None \<longrightarrow> onDelete_action refs = ''CASCADE''" by (rule 2)
    show "\<forall>a b. onDelete refs = Some a \<and> (a, b) \<in> set ON_DELETE_MAP \<longrightarrow> onDelete_action refs = b"
      by (rule 3)
  qed
  show "buildColumnChain k (fld\<lparr>index := True\<rparr>) allTables = buildColumnChain k fld allTables"
    using r by (rule chain_ignores_index_with_reference)
next
  assume "references fld = None \<and> index fld"
  then show "buildColumnChain k fld allTables =
          buildColumnChain k (fld\<lparr>index := False\<rparr>) allTables @ ''.index()''"
    by (simp add: buildColumnChain_def getColumnName_def getKnexType_def Let_def)
qed

theorem C7_references_clause_appended_witness:
  "references (ex_field\<lparr>references := Some \<lparr>model = ''user'', field = ''id'', onDelete = None\<rparr>,
                        index := True\<rparr>)
     = Some \<lparr>model = ''user'', field = ''id'', onDelete = None\<rparr>
   \<and> buildColumnChain ''ownerId''
         (ex_field\<lparr>references := Some \<lparr>model = ''user'', field = ''id'', onDelete = None\<rparr>,
                   index := True\<rparr>) [(''user'', ex_users)]
       = ''text('owner_id').notNullable().references('id').inTable('users').onDelete('CASCADE')''
   \<and> (''set null'', ''SET NULL'') \<in> set ON_DELETE_MAP
   \<and> buildColumnChain ''ownerId''
         (ex_field\<lparr>references :=
            Some \<lparr>model = ''group'', field = ''id'', onDelete = Some ''set null''\<rparr>\<rparr>)
         [(''user'', ex_users)]
       = ''text('owner_id').notNullable().references('id').inTable('group').onDelete('SET NULL')''
   \<and> references (ex_field\<lparr>index := True\<rparr>) = None \<and> index (ex_field\<lparr>index := True\<rparr>)
   \<and> buildColumnChain ''token'' (ex_field\<lparr>index := True\<rparr>) [(''user'', ex_users)]
       = ''text('token').notNullable().index()''"
proof -
  have plain: "buildColumnChain ''ownerId'' (ex_field\<lparr>references := None, index := False\<rparr>)
                 [(''user'', ex_users)] = ''text('owner_id').notNullable()''"
    "buildColumnChain ''ownerId''
       (ex_field\<lparr>references := Some \<lparr>model = ''group'', field = ''id'',
          onDelete = Some ''set null''\<rparr>, references := None, index := False\<rparr>)
       [(''user'', ex_users)] = ''text('owner_id').notNullable()''"
    "buildColumnChain ''token'' (ex_field\<lparr>index := False\<rparr>) [(''user'', ex_users)]
       = ''text('token').notNullable()''"
    by (simp_all add: ex_field_def buildColumnChain_def getColumnName_def getKnexType_def
        camelToSnake_def toLowerCase_def to_lower_def is_upper_def upper_letters_def
        lower_letters_def latin1_capitals_def latin1_smalls_def Let_def)
  have m: "(''set null'', ''SET NULL'') \<in> set ON_DELETE_MAP"
    by (simp add: ON_DELETE_MAP_def)
  have mu: "modelName ex_users = ''users''"
    by (simp add: ex_users_def)
  have r1: "references (ex_field\<lparr>references := Some \<lparr>model = ''user'', field = ''id'',
              onDelete = None\<rparr>, index := True\<rparr>)
            = Some \<lparr>model = ''user'', field = ''id'', onDelete = None\<rparr>"
    by simp
  have r2: "references (ex_field\<lparr>references := Some \<lparr>model = ''group'', field = ''id'',
              onDelete = Some ''set null''\<rparr>\<rparr>)
            = Some \<lparr>model = ''group'', field = ''id'', onDelete = Some ''set null''\<rparr>"
    by simp
  have r3: "references (ex_field\<lparr>index := True\<rparr>) = None \<and> index (ex_field\<lparr>index := True\<rparr>)"
    by (simp add: ex_field_def)
  have c1: "buildColumnChain ''ownerId''
         (ex_field\<lparr>references := Some \<lparr>model = ''user'', field = ''id'', onDelete = None\<rparr>,
                   index := True\<rparr>) [(''user'', ex_users)]
       = ''text('owner_id').notNullable().references('id').inTable('users').onDelete('CASCADE')''"
    using C7_references_clause_appended [of "ex_field\<lparr>references := Some \<lparr>model = ''user'',
              field = ''id'', onDelete = None\<rparr>, index := True\<rparr>"
            "\<lparr>model = ''user'', field = ''id'', onDelete = None\<rparr>" "''ownerId''"
            "[(''user'', ex_users)]", THEN conjunct1, THEN mp, OF r1, THEN conjunct1]
    by (auto simp: plain mu)
  have c2: "buildColumnChain ''ownerId''
         (ex_field\<lparr>references :=
            Some \<lparr>model = ''group'', field = ''id'', onDelete = Some ''set null''\<rparr>\<rparr>)
         [(''user'', ex_users)]
       = ''text('owner_id').notNullable().references('id').inTable('group').onDelete('SET NULL')''"
    using C7_references_clause_appended [of "ex_field\<lparr>references := Some \<lparr>model = ''group'',
              field = ''id'', onDelete = Some ''set null''\<rparr>\<rparr>"
            "\<lparr>model = ''group'', field = ''id'', onDelete = Some ''set null''\<rparr>" "''ownerId''"
            "[(''user'', ex_users)]", THEN conjunct1, THEN mp, OF r2, THEN conjunct1] m
    by (auto simp: plain)
  have c3: "buildColumnChain ''token'' (ex_field\<lparr>index := True\<rparr>) [(''user'', ex_users)]
       = ''text('token').notNullable().index()''"
    using C7_references_clause_appended [of "ex_field\<lparr>index := True\<rparr>"
            "\<lparr>model = ''user'', field = ''id'', onDelete = None\<rparr>" "''token''"
            "[(''user'', ex_users)]", THEN conjunct2, THEN mp, OF r3]
    by (simp add: plain)
  show ?thesis
    by (intro conjI r1 c1 m c2 r3 [THEN conjunct1] r3 [THEN conjunct2] c3)
qed




text \<open>
  C10. When the catalog has no table \<^verbatim>\<open>user\<close>, \<^verbatim>\<open>generateLucidMigration\<close> returns a
  document wrapped by \<^verbatim>\<open>wrapInBaseSchema\<close>, never the code of the no-changes artifact;
  with no active table (for instance when every table has \<^verbatim>\<open>disableMigrations\<close>) both
  bodies of the document are empty.
\<close>

theorem C10_fresh_mode_never_no_changes:
  assumes "queryExistingTables db = Inr existingTables" "''user'' \<notin> set existingTables"
  shows "\<exists>a upBody downBody.
           generateLucidMigration db tables file timestamp = Inr a
           \<and> code a = wrapInBaseSchema upBody downBody
           \<and> code a \<noteq> no_changes_code
           \<and> overwrite a = False
           \<and> (activeTables_of tables = [] \<longrightarrow> upBody = [] \<and> downBody = [])
           \<and> ((\<forall>t\<in>set (map snd tables). disableMigrations t) \<longrightarrow> activeTables_of tables = [])"
proof -
  let ?up = "join (nl @ nl)
               (map (\<lambda>t. generateCreateTableBlock (modelName t) (tfields t) tables ''    '')
                  (activeTables_of tables))"
  let ?down = "join nl (map (\<lambda>t. dropTableLine (modelName t)) (rev (activeTables_of tables)))"
  let ?a = "\<lparr>code = wrapInBaseSchema ?up ?down,
             path = (case file of Some f \<Rightarrow> f
                     | None \<Rightarrow> ''database/migrations/'' @ timestamp @ ''_better_auth_schema.ts''),
             overwrite = False\<rparr>"
  have 1: "generateLucidMigration db tables file timestamp = Inr ?a"
    by (rule generate_fresh [OF assms])
  have 2: "(\<forall>t\<in>set (map snd tables). disableMigrations t) \<longrightarrow> activeTables_of tables = []"
    by (auto simp: activeTables_of_def filter_empty_conv)
  have 3: "activeTables_of tables = [] \<longrightarrow> ?up = [] \<and> ?down = []"
    by simp
  have 4: "code ?a = wrapInBaseSchema ?up ?down \<and> code ?a \<noteq> no_changes_code \<and> overwrite ?a = False"
    by (simp add: wrap_not_no_changes)
  show ?thesis
    apply (rule exI [of _ ?a])
    apply (rule exI [of _ ?up])
    apply (rule exI [of _ ?down])
    using 1 2 3 4 apply (intro conjI)
         apply (elim conjE, assumption)+
    done
qed

theorem C10_fresh_mode_never_no_changes_witness:
  "queryExistingTables fresh_db = Inr [] \<and> ''user'' \<notin> set ([] :: string list)
   \<and> disableMigrations ex_disabled
   \<and> generateLucidMigration fresh_db [(''skipMe'', ex_disabled)] (Some ''m.ts'') ''20261102''
       = Inr \<lparr>code = wrapInBaseSchema [] [], path = ''m.ts'', overwrite = False\<rparr>"
proof -
  have h1: "queryExistingTables fresh_db = Inr []"
    by (simp add: queryExistingTables_def fresh_db_def new_Set_def)
  have h2: "''user'' \<notin> set ([] :: string list)" by simp
  have h3: "\<forall>t\<in>set (map snd [(''skipMe'', ex_disabled)]). disableMigrations t"
    by (simp add: ex_disabled_def)
  obtain a u d where a: "generateLucidMigration fresh_db [(''skipMe'', ex_disabled)] (Some ''m.ts'') ''20261102'' = Inr a"
      "code a = wrapInBaseSchema u d" "overwrite a = False"
      "activeTables_of [(''skipMe'', ex_disabled)] = [] \<longrightarrow> u = [] \<and> d = []"
      "(\<forall>t\<in>set (map snd [(''skipMe'', ex_disabled)]). disableMigrations t) \<longrightarrow> activeTables_of [(''skipMe'', ex_disabled)] = []"
    using C10_fresh_mode_never_no_changes [OF h1 h2, of "[(''skipMe'', ex_disabled)]" "Some ''m.ts''" "''20261102''"]
    by blast
  have "path a = ''m.ts''"
    using a(1) generate_fresh [OF h1 h2, of "[(''skipMe'', ex_disabled)]" "Some ''m.ts''" "''20261102''"]
    by auto
  with a h3 have "a = \<lparr>code = wrapInBaseSchema [] [], path = ''m.ts'', overwrite = False\<rparr>"
    by simp
  with a(1) h1 h2 h3 show ?thesis by simp
qed

lemma activeTables_of_sorted:
  "mset (activeTables_of tables) = mset (filter (\<lambda>t. \<not> disableMigrations t) (map snd tables))
   \<and> sorted (map table_order (activeTables_of tables))
   \<and> (\<forall>n. filter (\<lambda>t. table_order t = n) (activeTables_of tables)
            = filter (\<lambda>t. table_order t = n) (filter (\<lambda>t. \<not> disableMigrations t) (map snd tables)))"
  by (simp add: activeTables_of_def sort_key_stable)

text \<open>
  C4. With an empty catalog and no table marked \<^verbatim>\<open>disableMigrations\<close>, the generated
  document has one creation block for each table of the schema, in a list that is a
  permutation of the tables, ascending in \<^verbatim>\<open>order\<close> (999 when absent) and keeping the
  declaration order among tables of equal \<^verbatim>\<open>order\<close>; its down body drops the tables in
  the reverse of that list.
\<close>

theorem C4_fresh_creation_order:
  assumes "information_schema_tables db = Inr []"
    and "\<forall>t\<in>set (map snd tables). \<not> disableMigrations t"
  shows "\<exists>a ts.
           generateLucidMigration db tables file timestamp = Inr a
           \<and> code a = wrapInBaseSchema
                 (join (nl @ nl)
                    (map (\<lambda>t. generateCreateTableBlock (modelName t) (tfields t) tables ''    '') ts))
                 (join nl (map (\<lambda>t. dropTableLine (modelName t)) (rev ts)))
           \<and> mset ts = mset (map snd tables)
           \<and> sorted (map (\<lambda>t. case order t of Some n \<Rightarrow> n | None \<Rightarrow> 999) ts)
           \<and> (\<forall>n. filter (\<lambda>t. (case order t of Some n \<Rightarrow> n | None \<Rightarrow> 999) = n) ts
                 = filter (\<lambda>t. (case order t of Some n \<Rightarrow> n | None \<Rightarrow> 999) = n) (map snd tables))"
proof -
  let ?ts = "activeTables_of tables"
  let ?a = "\<lparr>code = wrapInBaseSchema
               (join (nl @ nl)
                  (map (\<lambda>t. generateCreateTableBlock (modelName t) (tfields t) tables ''    '') ?ts))
               (join nl (map (\<lambda>t. dropTableLine (modelName t)) (rev ?ts))),
             path = (case file of Some f \<Rightarrow> f
                     | None \<Rightarrow> ''database/migrations/'' @ timestamp @ ''_better_auth_schema.ts''),
             overwrite = False\<rparr>"
  have q: "queryExistingTables db = Inr []"
    using assms(1) by (simp add: queryExistingTables_def new_Set_def)
  have 1: "generateLucidMigration db tables file timestamp = Inr ?a"
    by (rule generate_fresh [OF q]) simp
  have all: "filter (\<lambda>t. \<not> disableMigrations t) (map snd tables) = map snd tables"
    using assms(2) by (simp add: filter_id_conv)
  have key: "table_order = (\<lambda>t. case order t of Some n \<Rightarrow> n | None \<Rightarrow> 999)"
    by (rule ext) (simp add: table_order_def)
  note S = activeTables_of_sorted [of tables, unfolded all key]
  have 2: "mset ?ts = mset (map snd tables)"
    by (rule S [THEN conjunct1])
  have 3: "sorted (map (\<lambda>t. case order t of Some n \<Rightarrow> n | None \<Rightarrow> 999) ?ts)"
    by (rule S [THEN conjunct2, THEN conjunct1])
  have 4: "\<forall>n. filter (\<lambda>t. (case order t of Some n \<Rightarrow> n | None \<Rightarrow> 999) = n) ?ts
             = filter (\<lambda>t. (case order t of Some n \<Rightarrow> n | None \<Rightarrow> 999) = n) (map snd tables)"
    by (rule S [THEN conjunct2, THEN conjunct2])
  have 5: "code ?a = wrapInBaseSchema
               (join (nl @ nl)
                  (map (\<lambda>t. generateCreateTableBlock (modelName t) (tfields t) tables ''    '') ?ts))
               (join nl (map (\<lambda>t. dropTableLine (modelName t)) (rev ?ts)))"
    by simp
  show ?thesis
    apply (rule exI [of _ ?a])
    apply (rule exI [of _ ?ts])
    using 1 2 3 4 5 apply (intro conjI)
        apply assumption+
    done
qed

lemma activeTables_of_ex_schema: "activeTables_of ex_schema = [ex_user, ex_session]"
  by (simp add: activeTables_of_def table_order_def ex_schema_def ex_user_def ex_session_def)

theorem C4_fresh_creation_order_witness:
  "information_schema_tables fresh_db = Inr []
   \<and> \<not> disableMigrations ex_session \<and> \<not> disableMigrations ex_user
   \<and> (\<exists>a ts.
         generateLucidMigration fresh_db ex_schema None ''20261102101500'' = Inr a
         \<and> code a = wrapInBaseSchema
               (join (nl @ nl)
                  (map (\<lambda>t. generateCreateTableBlock (modelName t) (tfields t) ex_schema ''    '') ts))
               (join nl (map (\<lambda>t. dropTableLine (modelName t)) (rev ts)))
         \<and> mset ts = mset (map snd ex_schema)
         \<and> sorted (map (\<lambda>t. case order t of Some n \<Rightarrow> n | None \<Rightarrow> 999) ts)
         \<and> (\<forall>n. filter (\<lambda>t. (case order t of Some n \<Rightarrow> n | None \<Rightarrow> 999) = n) ts
               = filter (\<lambda>t. (case order t of Some n \<Rightarrow> n | None \<Rightarrow> 999) = n) (map snd ex_schema)))
   \<and> activeTables_of ex_schema = [ex_user, ex_session]"
proof -
  have h1: "information_schema_tables fresh_db = Inr []"
    by (simp add: fresh_db_def)
  have h2: "\<forall>t\<in>set (map snd ex_schema). \<not> disableMigrations t"
    by (simp add: ex_schema_def ex_user_def ex_session_def)
  have n1: "\<not> disableMigrations ex_session" and n2: "\<not> disableMigrations ex_user"
    by (simp_all add: ex_user_def ex_session_def)
  show ?thesis
    by (intro conjI h1 n1 n2 activeTables_of_ex_schema
          C4_fresh_creation_order [OF h1 h2, of None "''20261102101500''"])
qed

lemma column_warning_not_Nil: "column_warning m c \<noteq> []"
  by (simp add: column_warning_def)

lemma table_up_Nil_iff:
  "table_up et ec tables t = [] \<longleftrightarrow>
     modelName t \<in> set et
     \<and> (\<forall>(k, f)\<in>set (tfields t). k \<noteq> ''id'' \<longrightarrow>
            getColumnName k f \<in> set (currentCols_of ec (modelName t)))"
  by (auto simp: table_up_def altered_table_def missing_fields_def filter_empty_conv)

lemma table_warnings_Nil_iff:
  "table_warnings et ec t = [] \<longleftrightarrow>
     (modelName t \<in> set et \<longrightarrow>
        (\<forall>c\<in>set (currentCols_of ec (modelName t)). c \<noteq> ''id'' \<longrightarrow>
            (\<exists>(k, f)\<in>set (tfields t). getColumnName k f = c)))"
  by (auto simp: table_warnings_def stale_columns_def filter_empty_conv list_ex_iff
      column_warning_not_Nil)

lemma no_changes_iff:
  "upStatements (incremental_state et ec tables ts) = []
     \<and> warnings (incremental_state et ec tables ts) = [] \<longleftrightarrow>
   (\<forall>t\<in>set ts.
      modelName t \<in> set et
      \<and> (\<forall>(k, f)\<in>set (tfields t). k \<noteq> ''id'' \<longrightarrow>
             getColumnName k f \<in> set (currentCols_of ec (modelName t)))
      \<and> (\<forall>c\<in>set (currentCols_of ec (modelName t)). c \<noteq> ''id'' \<longrightarrow>
             (\<exists>(k, f)\<in>set (tfields t). getColumnName k f = c)))"
  unfolding incremental_up incremental_warnings concat_eq_Nil_conv set_map ball_simps
    table_up_Nil_iff table_warnings_Nil_iff
  by blast

lemmas eval_catalog = queryExistingTables_def queryExistingColumns_def new_Set_def set_add_def
  add_column_row_def activeTables_of_def table_order_def

lemmas eval_names = getColumnName_def camelToSnake_def toLowerCase_def to_lower_def is_upper_def
  upper_letters_def lower_letters_def latin1_capitals_def latin1_smalls_def




text \<open>
  C3 (the code misses it). A table of the catalog that the configuration no longer has
  gets no warning: the loop asks for a table that is not among the names of the active
  tables and is nevertheless the name of an active table. Here the catalog still has the
  table \<^verbatim>\<open>twoFactor\<close> of a removed plugin, and the result is the no-changes artifact.
\<close>

theorem C3_removed_table_yields_no_warning:
  "generateLucidMigration removed_db [(''user'', ex_user)] (Some ''m.ts'') ''20261102101500''
     = Inr \<lparr>code = no_changes_code, path = ''m.ts'', overwrite = False\<rparr>"
proof -
  have h1: "queryExistingTables removed_db = Inr [''user'', ''twoFactor'']"
    by (simp add: eval_catalog removed_db_def)
  have h2: "''user'' \<in> set [''user'', ''twoFactor'']" by simp
  have h3: "queryExistingColumns removed_db (new_Set (map modelName (activeTables_of [(''user'', ex_user)])))
       = Inr [(''user'', [''id'', ''name''])]"
    by (simp add: eval_catalog removed_db_def ex_user_def)
  have "upStatements (incremental_state [''user'', ''twoFactor''] [(''user'', [''id'', ''name''])]
            [(''user'', ex_user)] (activeTables_of [(''user'', ex_user)])) = []
      \<and> warnings (incremental_state [''user'', ''twoFactor''] [(''user'', [''id'', ''name''])]
            [(''user'', ex_user)] (activeTables_of [(''user'', ex_user)])) = []"
    unfolding no_changes_iff
    by (simp add: eval_catalog eval_names ex_user_def ex_field_def currentCols_of_def)
  then show ?thesis
    unfolding generate_provisioned [OF h1 h2 h3] by simp
qed

lemma incremental_up_explicit:
  "upStatements (incremental_state et ec tables ts)
     = concat (map (\<lambda>t.
         if modelName t \<notin> set et
         then [generateCreateTableBlock (modelName t) (tfields t) tables ''    '']
         else if altered_table et ec t
         then [alterTableStatement (modelName t)
                 (map (\<lambda>(k, f). ''      table.'' @ buildColumnChain k f tables)
                    (missing_fields (tfields t) (currentCols_of ec (modelName t))))]
         else []) ts)"
  unfolding incremental_up
  by (rule arg_cong [where f = concat], rule map_cong [OF refl])
    (simp add: table_up_def addColLines_of_def)

lemma incremental_down_plain:
  assumes "\<forall>t\<in>set ts. \<forall>(k, f)\<in>set (missing_fields (tfields t) (currentCols_of ec (modelName t))).
             plain_name (getColumnName k f)"
  shows "downStatements (incremental_state et ec tables ts)
     = rev (map (\<lambda>t. dropTableLine (modelName t)) (filter (\<lambda>t. modelName t \<notin> set et) ts))
       @ map (\<lambda>t. alterTableStatement (modelName t)
                 (map (\<lambda>(k, f). dropColumnLine (getColumnName k f))
                    (missing_fields (tfields t) (currentCols_of ec (modelName t)))))
           (filter (altered_table et ec) ts)"
proof -
  have "concat (map (table_down et ec tables) ts)
      = map (\<lambda>t. alterTableStatement (modelName t)
                 (map (\<lambda>(k, f). dropColumnLine (getColumnName k f))
                    (missing_fields (tfields t) (currentCols_of ec (modelName t)))))
           (filter (altered_table et ec) ts)"
    by (rule concat_map_if_single) (use assms in \<open>simp add: table_down_plain\<close>)
  then show ?thesis
    by (simp add: incremental_down rev_map)
qed

text \<open>
  C1 (amended). In fresh mode the down body joins the drops of the created tables in
  exactly the reverse of the order of their creation blocks in the up body. In
  provisioned mode the up statements follow the order of the active tables (a creation
  block for a table the catalog lacks, one alteration for a table that lacks columns),
  and the down statements are the drops of the newly created tables in reverse order of
  creation, followed by the column drops of the altered tables in the same order as
  their alterations, column names being non-empty and free of single quotes.
\<close>

theorem C1_down_statement_order:
  assumes "queryExistingTables db = Inr et"
    and "''user'' \<in> set et \<longrightarrow>
           queryExistingColumns db (new_Set (map modelName (activeTables_of tables))) = Inr ec"
    and "''user'' \<in> set et \<longrightarrow>
           (\<forall>t\<in>set (activeTables_of tables).
              \<forall>(k, f)\<in>set (missing_fields (tfields t) (currentCols_of ec (modelName t))).
                 plain_name (getColumnName k f))"
  shows "(''user'' \<notin> set et \<longrightarrow>
            (\<exists>a. generateLucidMigration db tables file timestamp = Inr a
               \<and> code a = wrapInBaseSchema
                     (join (nl @ nl)
                        (map (\<lambda>t. generateCreateTableBlock (modelName t) (tfields t) tables ''    '')
                           (activeTables_of tables)))
                     (join nl
                        (rev (map (\<lambda>t. dropTableLine (modelName t)) (activeTables_of tables))))))
       \<and> (''user'' \<in> set et \<longrightarrow>
            (\<exists>a ups downs warns.
               generateLucidMigration db tables file timestamp = Inr a
               \<and> code a =
                   (if ups = [] \<and> warns = [] then no_changes_code
                    else wrapInBaseSchema
                           (join (nl @ nl) (ups @ (if warns \<noteq> [] then '''' # warns else [])))
                           (if downs \<noteq> [] then join (nl @ nl) downs else no_rollback_comment))
               \<and> ups = concat (map (\<lambda>t.
                     if modelName t \<notin> set et
                     then [generateCreateTableBlock (modelName t) (tfields t) tables ''    '']
                     else if altered_table et ec t
                     then [alterTableStatement (modelName t)
                             (map (\<lambda>(k, f). ''      table.'' @ buildColumnChain k f tables)
                                (missing_fields (tfields t) (currentCols_of ec (modelName t))))]
                     else []) (activeTables_of tables))
               \<and> downs =
                   rev (map (\<lambda>t. dropTableLine (modelName t))
                          (filter (\<lambda>t. modelName t \<notin> set et) (activeTables_of tables)))
                   @ map (\<lambda>t. alterTableStatement (modelName t)
                             (map (\<lambda>(k, f). dropColumnLine (getColumnName k f))
                                (missing_fields (tfields t) (currentCols_of ec (modelName t)))))
                       (filter (altered_table et ec) (activeTables_of tables))))"
proof (intro conjI impI)
  assume f: "''user'' \<notin> set et"
  show "\<exists>a. generateLucidMigration db tables file timestamp = Inr a
               \<and> code a = wrapInBaseSchema
                     (join (nl @ nl)
                        (map (\<lambda>t. generateCreateTableBlock (modelName t) (tfields t) tables ''    '')
                           (activeTables_of tables)))
                     (join nl
                        (rev (map (\<lambda>t. dropTableLine (modelName t)) (activeTables_of tables))))"
    unfolding generate_fresh [OF assms(1) f] by (simp add: rev_map)
next
  assume p: "''user'' \<in> set et"
  let ?st = "incremental_state et ec tables (activeTables_of tables)"
  from p assms(2) have ec: "queryExistingColumns db (new_Set (map modelName (activeTables_of tables))) = Inr ec"
    by simp
  from p assms(3) have pl: "\<forall>t\<in>set (activeTables_of tables).
              \<forall>(k, f)\<in>set (missing_fields (tfields t) (currentCols_of ec (modelName t))).
                 plain_name (getColumnName k f)"
    by simp
  show "\<exists>a ups downs warns.
               generateLucidMigration db tables file timestamp = Inr a
               \<and> code a =
                   (if ups = [] \<and> warns = [] then no_changes_code
                    else wrapInBaseSchema
                           (join (nl @ nl) (ups @ (if warns \<noteq> [] then '''' # warns else [])))
                           (if downs \<noteq> [] then join (nl @ nl) downs else no_rollback_comment))
               \<and> ups = concat (map (\<lambda>t.
                     if modelName t \<notin> set et
                     then [generateCreateTableBlock (modelName t) (tfields t) tables ''    '']
                     else if altered_table et ec t
                     then [alterTableStatement (modelName t)
                             (map (\<lambda>(k, f). ''      table.'' @ buildColumnChain k f tables)
                                (missing_fields (tfields t) (currentCols_of ec (modelName t))))]
                     else []) (activeTables_of tables))
               \<and> downs =
                   rev (map (\<lambda>t. dropTableLine (modelName t))
                          (filter (\<lambda>t. modelName t \<notin> set et) (activeTables_of tables)))
                   @ map (\<lambda>t. alterTableStatement (modelName t)
                             (map (\<lambda>(k, f). dropColumnLine (getColumnName k f))
                                (missing_fields (tfields t) (currentCols_of ec (modelName t)))))
                       (filter (altered_table et ec) (activeTables_of tables))"
    unfolding generate_provisioned [OF assms(1) p ec]
    apply (rule exI)
    apply (rule exI [of _ "upStatements ?st"])
    apply (rule exI [of _ "downStatements ?st"])
    apply (rule exI [of _ "warnings ?st"])
    apply (intro conjI)
       apply (rule refl)
      apply simp
     apply (rule incremental_up_explicit)
    apply (rule incremental_down_plain [OF pl])
    done
qed

lemmas eval_chain = buildColumnChain_def getKnexType_def references_clause_def ON_DELETE_MAP_def
  onDelete_action_def inherited_property_text_def Object_prototype_methods_def

lemmas eval_tables = altered_table_def missing_fields_def currentCols_of_def stale_columns_def
  table_warnings_def

lemma plain_name_examples: "plain_name ''name''" "plain_name ''token''"
  by (simp_all add: plain_name_def)

lemma ex_field_names:
  "getColumnName ''name'' ex_field = ''name''" "getColumnName ''token'' ex_field = ''token''"
  by (simp_all add: eval_names ex_field_def)

lemma ex_model_names: "modelName ex_user = ''user''" "modelName ex_session = ''session''"
  by (simp_all add: ex_user_def ex_session_def)

lemma ids_db_catalog:
  "queryExistingTables ids_db = Inr [''user'', ''session'']"
  "queryExistingColumns ids_db (new_Set (map modelName (activeTables_of ex_schema)))
     = Inr [(''user'', [''id'']), (''session'', [''id''])]"
  by (simp_all add: activeTables_of_ex_schema)
    (simp_all add: eval_catalog ids_db_def ex_user_def ex_session_def)

lemma ids_db_missing:
  "missing_fields (tfields ex_user)
     (currentCols_of [(''user'', [''id'']), (''session'', [''id''])] (modelName ex_user))
     = [(''name'', ex_field)]"
  "missing_fields (tfields ex_session)
     (currentCols_of [(''user'', [''id'']), (''session'', [''id''])] (modelName ex_session))
     = [(''token'', ex_field)]"
  by (simp_all add: eval_tables eval_names ex_user_def ex_session_def ex_field_def)

lemma ids_db_plain:
  "\<forall>t\<in>set (activeTables_of ex_schema).
     \<forall>(k, f)\<in>set (missing_fields (tfields t)
          (currentCols_of [(''user'', [''id'']), (''session'', [''id''])] (modelName t))).
        plain_name (getColumnName k f)"
  unfolding activeTables_of_ex_schema
  by (simp add: ids_db_missing ex_field_names plain_name_examples)

lemma ids_db_up:
  "upStatements (incremental_state [''user'', ''session'']
       [(''user'', [''id'']), (''session'', [''id''])] ex_schema (activeTables_of ex_schema))
     = [alterTableStatement ''user'' [''      table.text('name').notNullable()''],
        alterTableStatement ''session'' [''      table.text('token').notNullable()'']]"
  unfolding incremental_up_explicit activeTables_of_ex_schema
  by (simp add: altered_table_def ids_db_missing)
    (simp add: eval_chain eval_names ex_user_def ex_session_def ex_field_def)

lemma ids_db_down:
  "downStatements (incremental_state [''user'', ''session'']
       [(''user'', [''id'']), (''session'', [''id''])] ex_schema (activeTables_of ex_schema))
     = [alterTableStatement ''user'' [dropColumnLine ''name''],
        alterTableStatement ''session'' [dropColumnLine ''token'']]"
  unfolding incremental_down_plain [OF ids_db_plain, of "[''user'', ''session'']" ex_schema]
  unfolding activeTables_of_ex_schema
  by (simp add: altered_table_def ids_db_missing ex_field_names) (simp add: ex_model_names)

lemma ids_db_warnings:
  "warnings (incremental_state [''user'', ''session'']
       [(''user'', [''id'']), (''session'', [''id''])] ex_schema (activeTables_of ex_schema)) = []"
  unfolding incremental_warnings activeTables_of_ex_schema
  by (simp add: eval_tables ex_user_def ex_session_def)

theorem C1_alterations_counterexample:
  "generateLucidMigration ids_db ex_schema (Some ''m.ts'') ''20261102101500''
     = Inr \<lparr>code = wrapInBaseSchema
               (join (nl @ nl)
                  [alterTableStatement ''user'' [''      table.text('name').notNullable()''],
                   alterTableStatement ''session'' [''      table.text('token').notNullable()'']])
               (join (nl @ nl)
                  [alterTableStatement ''user'' [dropColumnLine ''name''],
                   alterTableStatement ''session'' [dropColumnLine ''token'']]),
             path = ''m.ts'', overwrite = False\<rparr>
   \<and> downStatements (incremental_state [''user'', ''session'']
         [(''user'', [''id'']), (''session'', [''id''])] ex_schema (activeTables_of ex_schema))
       \<noteq> [alterTableStatement ''session'' [dropColumnLine ''token''],
           alterTableStatement ''user'' [dropColumnLine ''name'']]"
proof -
  have u: "''user'' \<in> set [''user'', ''session'']" by simp
  have ne: "alterTableStatement ''user'' [dropColumnLine ''name'']
      \<noteq> alterTableStatement ''session'' [dropColumnLine ''token'']"
    by (simp add: alterTableStatement_def)
  have g: "generateLucidMigration ids_db ex_schema (Some ''m.ts'') ''20261102101500''
     = Inr \<lparr>code = wrapInBaseSchema
               (join (nl @ nl)
                  [alterTableStatement ''user'' [''      table.text('name').notNullable()''],
                   alterTableStatement ''session'' [''      table.text('token').notNullable()'']])
               (join (nl @ nl)
                  [alterTableStatement ''user'' [dropColumnLine ''name''],
                   alterTableStatement ''session'' [dropColumnLine ''token'']]),
             path = ''m.ts'', overwrite = False\<rparr>"
    unfolding generate_provisioned [OF ids_db_catalog(1) u ids_db_catalog(2)]
      ids_db_up ids_db_down ids_db_warnings
    by simp
  have d: "downStatements (incremental_state [''user'', ''session'']
         [(''user'', [''id'']), (''session'', [''id''])] ex_schema (activeTables_of ex_schema))
       \<noteq> [alterTableStatement ''session'' [dropColumnLine ''token''],
           alterTableStatement ''user'' [dropColumnLine ''name'']]"
    unfolding ids_db_down using ne by simp
  show ?thesis by (intro conjI g d)
qed

theorem C1_down_statement_order_witness:
  "queryExistingTables fresh_db = Inr []
   \<and> code (projr (generateLucidMigration fresh_db ex_schema None ''20261102101500''))
       = wrapInBaseSchema
           (join (nl @ nl)
              [generateCreateTableBlock ''user'' (tfields ex_user) ex_schema ''    '',
               generateCreateTableBlock ''session'' (tfields ex_session) ex_schema ''    ''])
           (join nl [dropTableLine ''session'', dropTableLine ''user''])
   \<and> queryExistingTables ids_db = Inr [''user'', ''session'']
   \<and> queryExistingColumns ids_db (new_Set (map modelName (activeTables_of ex_schema)))
       = Inr [(''user'', [''id'']), (''session'', [''id''])]
   \<and> plain_name ''name'' \<and> plain_name ''token''
   \<and> (\<exists>a ups downs warns.
         generateLucidMigration ids_db ex_schema None ''20261102101500'' = Inr a
         \<and> code a =
             (if ups = [] \<and> warns = [] then no_changes_code
              else wrapInBaseSchema
                     (join (nl @ nl) (ups @ (if warns \<noteq> [] then '''' # warns else [])))
                     (if downs \<noteq> [] then join (nl @ nl) downs else no_rollback_comment))
         \<and> ups = [alterTableStatement ''user'' [''      table.text('name').notNullable()''],
                  alterTableStatement ''session'' [''      table.text('token').notNullable()'']]
         \<and> downs = [alterTableStatement ''user'' [dropColumnLine ''name''],
                    alterTableStatement ''session'' [dropColumnLine ''token'']])"
proof -
  have f1: "queryExistingTables fresh_db = Inr []"
    by (simp add: eval_catalog fresh_db_def)
  have f2: "''user'' \<in> set [] \<longrightarrow>
      queryExistingColumns fresh_db (new_Set (map modelName (activeTables_of ex_schema))) = Inr []"
    by simp
  have f3: "''user'' \<in> set [] \<longrightarrow>
      (\<forall>t\<in>set (activeTables_of ex_schema).
         \<forall>(k, f)\<in>set (missing_fields (tfields t) (currentCols_of [] (modelName t))).
            plain_name (getColumnName k f))"
    by simp
  have f4: "''user'' \<notin> set []" by simp
  obtain a0 where a0: "generateLucidMigration fresh_db ex_schema None ''20261102101500'' = Inr a0"
    and c0: "code a0 = wrapInBaseSchema
                     (join (nl @ nl)
                        (map (\<lambda>t. generateCreateTableBlock (modelName t) (tfields t) ex_schema ''    '')
                           (activeTables_of ex_schema)))
                     (join nl
                        (rev (map (\<lambda>t. dropTableLine (modelName t)) (activeTables_of ex_schema))))"
    using C1_down_statement_order [OF f1 f2 f3, of None "''20261102101500''",
        THEN conjunct1, THEN mp, OF f4]
    by (elim exE conjE)
  have fresh: "code (projr (generateLucidMigration fresh_db ex_schema None ''20261102101500''))
       = wrapInBaseSchema
           (join (nl @ nl)
              [generateCreateTableBlock ''user'' (tfields ex_user) ex_schema ''    '',
               generateCreateTableBlock ''session'' (tfields ex_session) ex_schema ''    ''])
           (join nl [dropTableLine ''session'', dropTableLine ''user''])"
    unfolding a0 sum.sel c0 activeTables_of_ex_schema by (simp add: ex_model_names)
  have p1: "''user'' \<in> set [''user'', ''session'']" by simp
  have p2: "''user'' \<in> set [''user'', ''session''] \<longrightarrow>
      queryExistingColumns ids_db (new_Set (map modelName (activeTables_of ex_schema)))
        = Inr [(''user'', [''id'']), (''session'', [''id''])]"
    by (simp add: ids_db_catalog)
  have p3: "''user'' \<in> set [''user'', ''session''] \<longrightarrow>
      (\<forall>t\<in>set (activeTables_of ex_schema).
         \<forall>(k, f)\<in>set (missing_fields (tfields t)
              (currentCols_of [(''user'', [''id'']), (''session'', [''id''])] (modelName t))).
            plain_name (getColumnName k f))"
    using ids_db_plain by simp
  obtain a ups downs warns where
    a: "generateLucidMigration ids_db ex_schema None ''20261102101500'' = Inr a"
    and c: "code a =
                   (if ups = [] \<and> warns = [] then no_changes_code
                    else wrapInBaseSchema
                           (join (nl @ nl) (ups @ (if warns \<noteq> [] then '''' # warns else [])))
                           (if downs \<noteq> [] then join (nl @ nl) downs else no_rollback_comment))"
    and ups: "ups = upStatements (incremental_state [''user'', ''session'']
         [(''user'', [''id'']), (''session'', [''id''])] ex_schema (activeTables_of ex_schema))"
    and downs: "downs = downStatements (incremental_state [''user'', ''session'']
         [(''user'', [''id'']), (''session'', [''id''])] ex_schema (activeTables_of ex_schema))"
    using C1_down_statement_order [OF ids_db_catalog(1) p2 p3, of None "''20261102101500''",
        THEN conjunct2, THEN mp, OF p1]
    unfolding incremental_up_explicit
      incremental_down_plain [OF ids_db_plain, of "[''user'', ''session'']" ex_schema]
    by (elim exE conjE)
  have prov: "\<exists>a ups downs warns.
         generateLucidMigration ids_db ex_schema None ''20261102101500'' = Inr a
         \<and> code a =
             (if ups = [] \<and> warns = [] then no_changes_code
              else wrapInBaseSchema
                     (join (nl @ nl) (ups @ (if warns \<noteq> [] then '''' # warns else [])))
                     (if downs \<noteq> [] then join (nl @ nl) downs else no_rollback_comment))
         \<and> ups = [alterTableStatement ''user'' [''      table.text('name').notNullable()''],
                  alterTableStatement ''session'' [''      table.text('token').notNullable()'']]
         \<and> downs = [alterTableStatement ''user'' [dropColumnLine ''name''],
                    alterTableStatement ''session'' [dropColumnLine ''token'']]"
    using a c ups [unfolded ids_db_up] downs [unfolded ids_db_down] by (intro exI conjI)
  show ?thesis
    by (intro conjI f1 fresh ids_db_catalog plain_name_examples prov)
qed

lemma incremental_state_snoc:
  "incremental_state et ec tables (ts @ [t])
     = process_table et ec tables (incremental_state et ec tables ts) t"
  by (simp add: incremental_state_def)










lemma stale_column_warned:
  assumes "t \<in> set ts" "modelName t \<in> set et"
    and "c \<in> set (currentCols_of ec (modelName t))" "c \<noteq> ''id''"
    and "\<forall>(k, f)\<in>set (tfields t). getColumnName k f \<noteq> c"
  shows "set (column_warning (modelName t) c) \<subseteq> set (warnings (incremental_state et ec tables ts))"
proof -
  have "c \<in> set (stale_columns (tfields t) (currentCols_of ec (modelName t)))"
    using assms(3,4,5) by (auto simp: stale_columns_def list_ex_iff)
  then have "set (column_warning (modelName t) c) \<subseteq> set (table_warnings et ec t)"
    using assms(2) by (auto simp: table_warnings_def)
  then show ?thesis
    unfolding incremental_warnings using assms(1) by auto
qed

lemma quote_active: "activeTables_of quote_schema = [quote_user]"
  by (simp add: eval_catalog quote_schema_def quote_user_def)

lemma quote_user_sel:
  "modelName quote_user = ''user''"
  "tfields quote_user = [(''id'', ex_field), (''x'y'', ex_field)]"
  by (simp_all add: quote_user_def)

lemma quote_db_catalog:
  "queryExistingTables quote_db = Inr [''user'']"
  "queryExistingColumns quote_db (new_Set (map modelName (activeTables_of quote_schema)))
     = Inr [(''user'', [''id'', ''x''])]"
  unfolding quote_active
  by (simp_all add: eval_catalog quote_db_def quote_user_sel)

lemma quote_names:
  "getColumnName ''id'' ex_field = ''id''" "getColumnName ''x'y'' ex_field = ''x'y''"
  by (simp_all add: eval_names ex_field_def)

lemma quote_missing:
  "missing_fields [(''id'', ex_field), (''x'y'', ex_field)]
     (currentCols_of [(''user'', [''id'', ''x''])] ''user'') = [(''x'y'', ex_field)]"
  by (simp add: missing_fields_def currentCols_of_def quote_names)

lemma quote_chain:
  "buildColumnChain ''x'y'' ex_field quote_schema = ''text('x'y').notNullable()''"
  by (simp add: eval_chain eval_names ex_field_def)

lemma quote_line_match: "line_match ''      table.text('x'y').notNullable()'' = Some ''x''"
  by (simp add: match_here_def strip_prefix_def word_char_def upper_letters_def
      lower_letters_def)

lemma quote_addColLines:
  "addColLines_of [(''id'', ex_field), (''x'y'', ex_field)]
     (currentCols_of [(''user'', [''id'', ''x''])] ''user'') quote_schema
     = [''      table.text('x'y').notNullable()'']"
  unfolding addColLines_of_def quote_missing by (simp add: quote_chain)

lemma dropLines_of_single:
  "dropLines_of [l] = (case line_match l of None \<Rightarrow> [] | Some c \<Rightarrow> [dropColumnLine c])"
  by (simp add: dropLines_of_def List.map_filter_simps split: option.splits)

lemma quote_dropLines:
  "dropLines_of [''      table.text('x'y').notNullable()''] = [dropColumnLine ''x'']"
  unfolding dropLines_of_single quote_line_match by simp

lemma quote_schema_up:
  "upStatements (incremental_state [''user''] [(''user'', [''id'', ''x''])] quote_schema
       (activeTables_of quote_schema))
     = [alterTableStatement ''user'' [''      table.text('x'y').notNullable()'']]"
  unfolding incremental_up quote_active
  by (simp add: table_up_def altered_table_def quote_user_sel quote_missing quote_addColLines)

lemma quote_schema_down:
  "downStatements (incremental_state [''user''] [(''user'', [''id'', ''x''])] quote_schema
       (activeTables_of quote_schema))
     = [alterTableStatement ''user'' [dropColumnLine ''x'']]"
  unfolding incremental_down quote_active
  by (simp add: table_down_def altered_table_def quote_user_sel quote_missing quote_addColLines
      quote_dropLines)

lemma quote_schema_warnings:
  "warnings (incremental_state [''user''] [(''user'', [''id'', ''x''])] quote_schema
       (activeTables_of quote_schema)) = column_warning ''user'' ''x''"
  unfolding incremental_warnings quote_active
  by (simp add: table_warnings_def stale_columns_def currentCols_of_def quote_user_sel quote_names)

text \<open>
  C9 (the code misses it). A catalog column that no field declares is only to be warned
  about, and the generator does put its warning into the up body (lemma
  \<open>stale_column_warned\<close>). But the down statement of an alteration is read back from the
  generated line, up to the first single quote after the opening one, and names are
  written into the code as they are. Here the schema adds the field \<^verbatim>\<open>x'y\<close> to the table
  \<^verbatim>\<open>user\<close>, whose catalog column \<^verbatim>\<open>x\<close> no field declares: the up body warns about
  \<^verbatim>\<open>user.x\<close>, and the down body has the executable statement that drops \<^verbatim>\<open>x\<close>.
\<close>

theorem C9_misread_name_drops_stale_column:
  "generateLucidMigration quote_db quote_schema (Some ''m.ts'') ''20261102101500''
     = Inr \<lparr>code = wrapInBaseSchema
               (join (nl @ nl)
                  (alterTableStatement ''user'' [''      table.text('x'y').notNullable()'']
                     # '''' # column_warning ''user'' ''x''))
               (''    this.schema.table('user', (table) => {'' @ nl
                  @ ''      table.dropColumn('x')'' @ nl
                  @ ''    })''),
             path = ''m.ts'', overwrite = False\<rparr>
   \<and> ''x'' \<in> set (currentCols_of [(''user'', [''id'', ''x''])] ''user'')
   \<and> getColumnName ''id'' ex_field \<noteq> ''x''
   \<and> getColumnName ''x'y'' ex_field \<noteq> ''x''"
proof -
  have u: "''user'' \<in> set [''user'']" by simp
  have t: "alterTableStatement ''user'' [dropColumnLine ''x'']
      = ''    this.schema.table('user', (table) => {'' @ nl
                  @ ''      table.dropColumn('x')'' @ nl
                  @ ''    })''"
    by (simp add: alterTableStatement_def dropColumnLine_def)
  have w: "column_warning ''user'' ''x'' \<noteq> []"
    by (simp add: column_warning_def)
  have g: "generateLucidMigration quote_db quote_schema (Some ''m.ts'') ''20261102101500''
     = Inr \<lparr>code = wrapInBaseSchema
               (join (nl @ nl)
                  (alterTableStatement ''user'' [''      table.text('x'y').notNullable()'']
                     # '''' # column_warning ''user'' ''x''))
               (''    this.schema.table('user', (table) => {'' @ nl
                  @ ''      table.dropColumn('x')'' @ nl
                  @ ''    })''),
             path = ''m.ts'', overwrite = False\<rparr>"
    unfolding generate_provisioned [OF quote_db_catalog(1) u quote_db_catalog(2)]
      quote_schema_up quote_schema_down quote_schema_warnings t [symmetric]
    using w by simp
  have c: "''x'' \<in> set (currentCols_of [(''user'', [''id'', ''x''])] ''user'')"
    by (simp add: currentCols_of_def)
  have n: "getColumnName ''id'' ex_field \<noteq> ''x''" "getColumnName ''x'y'' ex_field \<noteq> ''x''"
    by (simp_all add: quote_names)
  show ?thesis by (intro conjI g c n)
qed

lemma map_of_filter_key:
  "(\<forall>(k', v)\<in>set xs. k' = k \<longrightarrow> P (k', v)) \<Longrightarrow> map_of (filter P xs) k = map_of xs k"
  by (induction xs) auto

lemma buildColumnChain_cong:
  "(\<And>r. references f = Some r \<Longrightarrow> map_of T (model r) = map_of T' (model r)) \<Longrightarrow>
     buildColumnChain k f T = buildColumnChain k f T'"
  by (simp add: buildColumnChain_def references_clause_def Let_def split: option.splits)

lemma generateCreateTableBlock_cong:
  assumes "\<And>k f. (k, f) \<in> set flds \<Longrightarrow> buildColumnChain k f T = buildColumnChain k f T'"
  shows "generateCreateTableBlock m flds T i = generateCreateTableBlock m flds T' i"
proof -
  have 1: "map (\<lambda>(key, f). i @ ''  table.'' @ buildColumnChain key f T)
             (filter (\<lambda>(key, f). key \<noteq> ''id'') flds)
         = map (\<lambda>(key, f). i @ ''  table.'' @ buildColumnChain key f T')
             (filter (\<lambda>(key, f). key \<noteq> ''id'') flds)"
    by (rule map_cong [OF refl]) (use assms in auto)
  have 2: "(case map_of flds ''id'' of
               Some f \<Rightarrow> [i @ ''  table.'' @ buildColumnChain ''id'' f T]
             | None \<Rightarrow> [])
         = (case map_of flds ''id'' of
               Some f \<Rightarrow> [i @ ''  table.'' @ buildColumnChain ''id'' f T']
             | None \<Rightarrow> [])"
    using assms by (auto split: option.splits dest: map_of_SomeD)
  show ?thesis
    unfolding generateCreateTableBlock_def Let_def 1 2 ..
qed

lemma addColLines_of_cong:
  assumes "\<And>k f. (k, f) \<in> set flds \<Longrightarrow> buildColumnChain k f T = buildColumnChain k f T'"
  shows "addColLines_of flds cc T = addColLines_of flds cc T'"
  unfolding addColLines_of_def
  by (rule map_cong [OF refl]) (use assms in \<open>auto simp: missing_fields_def\<close>)

lemma process_table_cong:
  assumes "\<And>k f. (k, f) \<in> set (tfields t) \<Longrightarrow> buildColumnChain k f T = buildColumnChain k f T'"
  shows "process_table et ec T st t = process_table et ec T' st t"
proof -
  have 1: "generateCreateTableBlock (modelName t) (tfields t) T ''    ''
         = generateCreateTableBlock (modelName t) (tfields t) T' ''    ''"
    by (rule generateCreateTableBlock_cong) (rule assms)
  have 2: "addColLines_of (tfields t) cc T = addColLines_of (tfields t) cc T'" for cc
    by (rule addColLines_of_cong) (rule assms)
  show ?thesis
    by (simp add: process_table_def 1 2)
qed

lemma foldl_cong_set:
  "(\<And>s x. x \<in> set xs \<Longrightarrow> f s x = g s x) \<Longrightarrow> foldl f s xs = foldl g s xs"
  by (induction xs arbitrary: s) auto

lemma incremental_state_cong:
  assumes "\<And>t k f. t \<in> set ts \<Longrightarrow> (k, f) \<in> set (tfields t) \<Longrightarrow>
             buildColumnChain k f T = buildColumnChain k f T'"
  shows "incremental_state et ec T ts = incremental_state et ec T' ts"
  unfolding incremental_state_def
  by (rule foldl_cong_set) (rule process_table_cong, rule assms)

lemma generate_cong:
  assumes a: "activeTables_of T' = activeTables_of T"
    and c: "\<And>t k f. t \<in> set (activeTables_of T) \<Longrightarrow> (k, f) \<in> set (tfields t) \<Longrightarrow>
             buildColumnChain k f T = buildColumnChain k f T'"
  shows "generateLucidMigration db T file ts = generateLucidMigration db T' file ts"
proof -
  have 1: "map (\<lambda>t. generateCreateTableBlock (modelName t) (tfields t) T ''    '')
             (activeTables_of T)
         = map (\<lambda>t. generateCreateTableBlock (modelName t) (tfields t) T' ''    '')
             (activeTables_of T)"
    by (rule map_cong [OF refl]) (rule generateCreateTableBlock_cong, rule c)
  have 2: "incremental_state et ec T (activeTables_of T)
         = incremental_state et ec T' (activeTables_of T)" for et ec
    by (rule incremental_state_cong) (rule c)
  show ?thesis
    unfolding generateLucidMigration_def Let_def a 1 2 ..
qed

lemma activeTables_of_filter:
  "activeTables_of (filter (\<lambda>(k, t). \<not> disableMigrations t) tables) = activeTables_of tables"
proof -
  have "filter (\<lambda>t. \<not> disableMigrations t)
          (map snd (filter (\<lambda>(k, t). \<not> disableMigrations t) tables))
      = filter (\<lambda>t. \<not> disableMigrations t) (map snd tables)"
    by (induction tables) auto
  then show ?thesis by (simp add: activeTables_of_def)
qed

lemma active_table_entry:
  "t \<in> set (activeTables_of tables) \<Longrightarrow> \<exists>k. (k, t) \<in> set tables \<and> \<not> disableMigrations t"
  by (auto simp: activeTables_of_def)

text \<open>
  C2 (amended). A table marked \<^verbatim>\<open>disableMigrations\<close> adds no statement and no warning of
  its own, in either mode: when no field of an active table has a foreign key whose
  target is the key of a disabled table, the generated artifact is the one generated
  from the schema without the disabled tables.
\<close>

theorem C2_disabled_tables_add_nothing:
  assumes "\<forall>(k, t)\<in>set tables. \<not> disableMigrations t \<longrightarrow>
             (\<forall>(fk, f)\<in>set (tfields t). \<forall>r. references f = Some r \<longrightarrow>
                (\<forall>(k', t')\<in>set tables. disableMigrations t' \<longrightarrow> model r \<noteq> k'))"
  shows "generateLucidMigration db tables file timestamp
           = generateLucidMigration db (filter (\<lambda>(k, t). \<not> disableMigrations t) tables)
               file timestamp"
proof (rule generate_cong [OF activeTables_of_filter])
  fix t k f
  assume t: "t \<in> set (activeTables_of tables)" and f: "(k, f) \<in> set (tfields t)"
  from active_table_entry [OF t] obtain key where
    key: "(key, t) \<in> set tables" "\<not> disableMigrations t" by blast
  show "buildColumnChain k f tables
          = buildColumnChain k f (filter (\<lambda>(k, t). \<not> disableMigrations t) tables)"
  proof (rule buildColumnChain_cong)
    fix r
    assume r: "references f = Some r"
    have "\<forall>(k', t')\<in>set tables. disableMigrations t' \<longrightarrow> model r \<noteq> k'"
      using assms key f r by fastforce
    then have "\<forall>(k', v)\<in>set tables. k' = model r \<longrightarrow>
                 (case (k', v) of (k, t) \<Rightarrow> \<not> disableMigrations t)"
      by auto
    then show "map_of tables (model r)
        = map_of (filter (\<lambda>(k, t). \<not> disableMigrations t) tables) (model r)"
      by (rule map_of_filter_key [symmetric])
  qed
qed

theorem C2_disabled_tables_add_nothing_witness:
  "disableMigrations ex_disabled
   \<and> references owner_field = Some \<lparr>model = ''user'', field = ''id'', onDelete = Some ''cascade''\<rparr>
   \<and> (''ownerId'', owner_field) \<in> set (tfields owner_session)
   \<and> generateLucidMigration ids_db ((''skipMe'', ex_disabled) # owner_schema) None
         ''20261102101500''
       = generateLucidMigration ids_db owner_schema None ''20261102101500''
   \<and> generateLucidMigration fresh_db ((''skipMe'', ex_disabled) # owner_schema) None
         ''20261102101500''
       = generateLucidMigration fresh_db owner_schema None ''20261102101500''"
proof -
  have d: "disableMigrations ex_disabled"
    by (simp add: ex_disabled_def)
  have r0: "references ex_field = None"
    by (simp add: ex_field_def)
  have r: "references owner_field
             = Some \<lparr>model = ''user'', field = ''id'', onDelete = Some ''cascade''\<rparr>"
    by (simp add: owner_field_def)
  have m: "(''ownerId'', owner_field) \<in> set (tfields owner_session)"
    by (simp add: owner_session_def)
  have h: "\<forall>(k, t)\<in>set ((''skipMe'', ex_disabled) # owner_schema). \<not> disableMigrations t \<longrightarrow>
             (\<forall>(fk, f)\<in>set (tfields t). \<forall>r. references f = Some r \<longrightarrow>
                (\<forall>(k', t')\<in>set ((''skipMe'', ex_disabled) # owner_schema).
                    disableMigrations t' \<longrightarrow> model r \<noteq> k'))"
    by (simp add: owner_schema_def ex_user_def owner_session_def r0 r)
  have f: "filter (\<lambda>(k, t). \<not> disableMigrations t) ((''skipMe'', ex_disabled) # owner_schema)
      = owner_schema"
    by (simp add: owner_schema_def ex_user_def owner_session_def ex_disabled_def)
  show ?thesis
    using C2_disabled_tables_add_nothing [OF h, of ids_db None "''20261102101500''"]
      C2_disabled_tables_add_nothing [OF h, of fresh_db None "''20261102101500''"] d r m
    unfolding f by simp
qed

lemma fk_schema_active: "activeTables_of fk_schema = [fk_session]"
  by (simp add: eval_catalog fk_schema_def fk_session_def ex_disabled_def)

lemma fk_session_block:
  "generateCreateTableBlock (modelName fk_session) (tfields fk_session) fk_schema ''    ''
     = ''    this.schema.createTable('session', (table) => {'' @ nl
       @ ''      table.text('id').primary().notNullable()'' @ nl
       @ ''      table.text('owner_id').notNullable().references('id').inTable('skip_me').onDelete('CASCADE')''
       @ nl @ ''    })''"
  by (simp add: generateCreateTableBlock_def eval_chain eval_names fk_session_def fk_schema_def
      ex_disabled_def ex_field_def Let_def)

theorem C2_foreign_key_target_counterexample:
  "disableMigrations ex_disabled \<and> modelName ex_disabled = ''skip_me''
   \<and> generateLucidMigration fresh_db fk_schema (Some ''m.ts'') ''20261102101500''
       = Inr \<lparr>code = wrapInBaseSchema
                 (''    this.schema.createTable('session', (table) => {'' @ nl
                    @ ''      table.text('id').primary().notNullable()'' @ nl
                    @ ''      table.text('owner_id').notNullable().references('id').inTable('skip_me').onDelete('CASCADE')''
                    @ nl @ ''    })'')
                 ''    this.schema.dropTableIfExists('session')'',
               path = ''m.ts'', overwrite = False\<rparr>
   \<and> includes_text
         (code (projr (generateLucidMigration fresh_db fk_schema (Some ''m.ts'') ''20261102101500'')))
         ''skip_me''"
proof -
  have d: "disableMigrations ex_disabled" "modelName ex_disabled = ''skip_me''"
    by (simp_all add: ex_disabled_def)
  have h1: "queryExistingTables fresh_db = Inr []"
    by (simp add: eval_catalog fresh_db_def)
  have m: "dropTableLine (modelName fk_session) = ''    this.schema.dropTableIfExists('session')''"
    by (simp add: dropTableLine_def fk_session_def)
  have g: "generateLucidMigration fresh_db fk_schema (Some ''m.ts'') ''20261102101500''
       = Inr \<lparr>code = wrapInBaseSchema
                 (''    this.schema.createTable('session', (table) => {'' @ nl
                    @ ''      table.text('id').primary().notNullable()'' @ nl
                    @ ''      table.text('owner_id').notNullable().references('id').inTable('skip_me').onDelete('CASCADE')''
                    @ nl @ ''    })'')
                 ''    this.schema.dropTableIfExists('session')'',
               path = ''m.ts'', overwrite = False\<rparr>"
    unfolding generate_fresh [OF h1, simplified] fk_schema_active
    by (simp add: fk_session_block m)
  have i: "includes_text
         (code (projr (generateLucidMigration fresh_db fk_schema (Some ''m.ts'') ''20261102101500'')))
         ''skip_me''"
    unfolding g by (simp add: wrapInBaseSchema_def)
  show ?thesis by (intro conjI d g i)
qed


end
